theory Spec2Isabelle
  imports Complex_Main "HOL-Library.Multiset"
begin

section \<open>Data model of \<open>internal/stats/stats.go\<close>\<close>

text \<open>
  Numbers. A Go \<open>float64\<close> is modelled by the real number it denotes and its
  arithmetic by exact real arithmetic: the model covers finite values and leaves out
  rounding, overflow, NaN and the infinities. \<open>math.MaxFloat64\<close> is the largest finite
  value, \<open>2^1023 * (2 - 2^-52)\<close>. The accumulator of an hour is modelled a second time
  on values that include the infinities and NaN (\<open>ieee64\<close>), since a sample can be one of
  them. A Go \<open>int\<close> is modelled by \<open>int\<close>; the counters of
  this package count elements of slices held in memory and never reach \<open>2^63\<close>.

  Pointers. A \<open>*T\<close> that the code compares with \<open>nil\<close> is a \<open>T option\<close>. A fixed array
  \<open>[24]*T\<close> is a function from the index to \<open>T option\<close>; the code only ever reads and
  writes the indices \<open>0..23\<close>. Dereferencing \<open>nil\<close> panics in Go; the model returns
  \<open>Inl NilPointerDereference\<close> there.

  Field names carry the name of their struct as a prefix (\<open>hsMin\<close> is \<open>HourlyStats.Min\<close>),
  since several structs share field names and \<open>Min\<close>, \<open>Max\<close> are constants of HOL.
\<close>

type_synonym float64 = real

definition MaxFloat64 :: float64 where
  "MaxFloat64 = 2 ^ 1023 * (2 - 1 / 2 ^ 52)"

datatype error = NilPointerDereference

record HourlyStats =
  hsHour :: int
  hsSamples :: int
  hsMin :: float64
  hsMax :: float64
  hsSum :: float64
  hsMean :: float64
  hsStdDev :: float64
  hsValues :: "float64 list"

record DailyStats =
  dsDate :: string
  dsHours :: "nat \<Rightarrow> HourlyStats option"

record AggregatedHourStats =
  aggHour :: int
  aggSampleDays :: int
  aggMin :: float64
  aggMax :: float64
  aggAverage :: float64
  aggMedian :: float64
  aggStdDev :: float64
  aggValues :: "float64 list"

record MultiDayStats =
  mdStartDate :: string
  mdEndDate :: string
  mdDaysAnalyzed :: int
  mdByHour :: "nat \<Rightarrow> AggregatedHourStats option"
  mdTotalProduction :: float64
  mdDailyAverage :: float64
  mdPeakHour :: int
  mdPeakPowerAvg :: float64

text \<open>
  \<open>growatt.ParsedPowerData\<close> (\<open>pkg/growatt/types.go\<close>). The \<open>Date\<close> field is a
  \<open>time.Time\<close> of which the package only uses \<open>Date.Format("2006-01-02")\<close>; the model
  keeps that formatted string.
\<close>

record ParsedPowerData =
  pdDate :: string
  pdTime :: string
  pdPower :: float64
  pdHour :: int
  pdMinute :: int

record HourlyRow =
  rowDate :: string
  rowHour :: int
  rowMin :: float64
  rowMax :: float64
  rowAvg :: float64
  rowSamples :: int

section \<open>The hour bucket\<close>

definition NewHourlyStats :: "int \<Rightarrow> HourlyStats" where
  "NewHourlyStats hour =
     \<lparr>hsHour = hour, hsSamples = 0, hsMin = MaxFloat64, hsMax = - MaxFloat64,
      hsSum = 0, hsMean = 0, hsStdDev = 0, hsValues = []\<rparr>"

definition AddValue :: "HourlyStats \<Rightarrow> float64 \<Rightarrow> HourlyStats" where
  "AddValue h power' =
     (let h1 = h\<lparr>hsSamples := hsSamples h + 1\<rparr>;
          h2 = h1\<lparr>hsSum := hsSum h1 + power'\<rparr>;
          h3 = h2\<lparr>hsValues := hsValues h2 @ [power']\<rparr>;
          h4 = (if power' < hsMin h3 then h3\<lparr>hsMin := power'\<rparr> else h3)
      in (if power' > hsMax h4 then h4\<lparr>hsMax := power'\<rparr> else h4))"

definition CalculateStdDev :: "float64 list \<Rightarrow> float64 \<Rightarrow> float64" where
  "CalculateStdDev values mean =
     (if length values < 2 then 0
      else let sumSquares = foldl (\<lambda>s v. let diff = v - mean in s + diff * diff) 0 values;
               variance = sumSquares / real (length values - 1)
           in sqrt variance)"

text \<open>
  \<open>sort.Float64s\<close> of the Go library sorts in increasing order; on the reals the sorted
  permutation of a list is unique, so HOL's \<open>sort\<close> returns it.
\<close>

definition CalculateMedian :: "float64 list \<Rightarrow> float64" where
  "CalculateMedian values =
     (if length values = 0 then 0
      else let sorted = sort values;
               n = length sorted
           in if n mod 2 = 0 then (sorted ! (n div 2 - 1) + sorted ! (n div 2)) / 2
              else sorted ! (n div 2))"

definition Finalize :: "HourlyStats \<Rightarrow> HourlyStats" where
  "Finalize h =
     (if hsSamples h = 0 then h\<lparr>hsMin := 0, hsMax := 0\<rparr>
      else let h1 = h\<lparr>hsMean := hsSum h / of_int (hsSamples h)\<rparr>
           in h1\<lparr>hsStdDev := CalculateStdDev (hsValues h1) (hsMean h1)\<rparr>)"

section \<open>The hour bucket on all \<open>float64\<close> values\<close>

text \<open>
  A \<open>float64\<close> is a finite number, an infinity or NaN; \<open>Finite r\<close> is a \<open>float64\<close> when
  \<open>r\<close> lies between \<open>- MaxFloat64\<close> and \<open>MaxFloat64\<close>. The comparisons and the addition
  follow IEEE 754 on the infinities and NaN: NaN compares false with every value,
  \<open>-Inf\<close> lies below and \<open>+Inf\<close> above every finite value, a sum with NaN and the sum of
  the two infinities are NaN. On finite values the addition is that of the reals, as
  everywhere in this theory. A power reading decoded from the string \<open>"Inf"\<close> is a \<open>+Inf\<close>
  sample.
\<close>

datatype ieee64 = NaN | NegInf | Finite real | PosInf

fun less64 :: "ieee64 \<Rightarrow> ieee64 \<Rightarrow> bool" where
  "less64 NaN y = False"
| "less64 x NaN = False"
| "less64 PosInf y = False"
| "less64 x NegInf = False"
| "less64 NegInf y = True"
| "less64 x PosInf = True"
| "less64 (Finite a) (Finite b) = (a < b)"

fun add64 :: "ieee64 \<Rightarrow> ieee64 \<Rightarrow> ieee64" where
  "add64 NaN y = NaN"
| "add64 x NaN = NaN"
| "add64 PosInf NegInf = NaN"
| "add64 NegInf PosInf = NaN"
| "add64 PosInf y = PosInf"
| "add64 x PosInf = PosInf"
| "add64 NegInf y = NegInf"
| "add64 x NegInf = NegInf"
| "add64 (Finite a) (Finite b) = Finite (a + b)"

record HourlyStats64 =
  hxHour :: int
  hxSamples :: int
  hxMin :: ieee64
  hxMax :: ieee64
  hxSum :: ieee64
  hxMean :: ieee64
  hxStdDev :: ieee64
  hxValues :: "ieee64 list"

definition NewHourlyStats64 :: "int \<Rightarrow> HourlyStats64" where
  "NewHourlyStats64 hour =
     \<lparr>hxHour = hour, hxSamples = 0, hxMin = Finite MaxFloat64, hxMax = Finite (- MaxFloat64),
      hxSum = Finite 0, hxMean = Finite 0, hxStdDev = Finite 0, hxValues = []\<rparr>"

definition AddValue64 :: "HourlyStats64 \<Rightarrow> ieee64 \<Rightarrow> HourlyStats64" where
  "AddValue64 h power' =
     (let h1 = h\<lparr>hxSamples := hxSamples h + 1\<rparr>;
          h2 = h1\<lparr>hxSum := add64 (hxSum h1) power'\<rparr>;
          h3 = h2\<lparr>hxValues := hxValues h2 @ [power']\<rparr>;
          h4 = (if less64 power' (hxMin h3) then h3\<lparr>hxMin := power'\<rparr> else h3)
      in (if less64 (hxMax h4) power' then h4\<lparr>hxMax := power'\<rparr> else h4))"

text \<open>A bucket of finite values, seen as a bucket of \<open>float64\<close> values.\<close>

definition finiteStats :: "HourlyStats \<Rightarrow> HourlyStats64" where
  "finiteStats h =
     \<lparr>hxHour = hsHour h, hxSamples = hsSamples h, hxMin = Finite (hsMin h),
      hxMax = Finite (hsMax h), hxSum = Finite (hsSum h), hxMean = Finite (hsMean h),
      hxStdDev = Finite (hsStdDev h), hxValues = map Finite (hsValues h)\<rparr>"

section \<open>The hourly aggregator\<close>

text \<open>
  \<open>AggregateToHourly\<close> runs three loops over a fresh \<open>DailyStats\<close>: it allocates the 24
  buckets, adds every sample whose hour lies in \<open>0..23\<close> to the bucket of its hour, and
  finalizes the 24 buckets. Each loop is a function of its own here.
\<close>

definition initHours :: "DailyStats \<Rightarrow> DailyStats" where
  "initHours stats =
     foldl (\<lambda>s i. s\<lparr>dsHours := (dsHours s)(i \<mapsto> NewHourlyStats (int i))\<rparr>) stats [0..<24]"

fun addValues :: "ParsedPowerData list \<Rightarrow> DailyStats \<Rightarrow> error + DailyStats" where
  "addValues [] stats = Inr stats"
| "addValues (p # ps) stats =
     (if pdHour p \<ge> 0 \<and> pdHour p < 24 then
        (case dsHours stats (nat (pdHour p)) of
           None \<Rightarrow> Inl NilPointerDereference
         | Some h \<Rightarrow>
             addValues ps
               (stats\<lparr>dsHours := (dsHours stats)(nat (pdHour p) \<mapsto> AddValue h (pdPower p))\<rparr>))
      else addValues ps stats)"

fun finalizeHours :: "nat list \<Rightarrow> DailyStats \<Rightarrow> error + DailyStats" where
  "finalizeHours [] stats = Inr stats"
| "finalizeHours (i # rest) stats =
     (case dsHours stats i of
        None \<Rightarrow> Inl NilPointerDereference
      | Some h \<Rightarrow> finalizeHours rest (stats\<lparr>dsHours := (dsHours stats)(i \<mapsto> Finalize h)\<rparr>))"

definition AggregateToHourly :: "ParsedPowerData list \<Rightarrow> error + DailyStats option" where
  "AggregateToHourly data =
     (if length data = 0 then Inr None
      else
        let stats = initHours \<lparr>dsDate = pdDate (data ! 0), dsHours = (\<lambda>i. None)\<rparr>
        in (case addValues data stats of
              Inl e \<Rightarrow> Inl e
            | Inr stats1 \<Rightarrow>
                (case finalizeHours [0..<24] stats1 of
                   Inl e \<Rightarrow> Inl e
                 | Inr stats2 \<Rightarrow> Inr (Some stats2))))"

section \<open>The multi-day aggregator\<close>

text \<open>
  \<open>AggregateDays\<close> takes a slice of pointers, \<open>[]*DailyStats\<close>: an element may be \<open>nil\<close>,
  and reading a field of it panics.
\<close>

text \<open>The struct literal of lines 165 to 170: the fields it leaves out are zero.\<close>

definition emptyHour :: "nat \<Rightarrow> AggregatedHourStats" where
  "emptyHour i =
     \<lparr>aggHour = int i, aggSampleDays = 0, aggMin = MaxFloat64, aggMax = - MaxFloat64,
      aggAverage = 0, aggMedian = 0, aggStdDev = 0, aggValues = []\<rparr>"

definition initByHour :: "MultiDayStats \<Rightarrow> MultiDayStats" where
  "initByHour result =
     foldl (\<lambda>r i. r\<lparr>mdByHour := (mdByHour r)(i \<mapsto> emptyHour i)\<rparr>) result [0..<24]"

text \<open>The body of the inner loop for a bucket that is counted (lines 181 to 193).\<close>

definition addHour :: "AggregatedHourStats \<Rightarrow> HourlyStats \<Rightarrow> AggregatedHourStats" where
  "addHour agg hourStats =
     (let a1 = agg\<lparr>aggSampleDays := aggSampleDays agg + 1\<rparr>;
          a2 = (if hsMin hourStats < aggMin a1 then a1\<lparr>aggMin := hsMin hourStats\<rparr> else a1);
          a3 = (if hsMax hourStats > aggMax a2 then a2\<lparr>aggMax := hsMax hourStats\<rparr> else a2)
      in a3\<lparr>aggValues := aggValues a3 @ [hsMean hourStats]\<rparr>)"

fun aggregateHours :: "DailyStats \<Rightarrow> nat list \<Rightarrow> MultiDayStats \<Rightarrow> error + MultiDayStats" where
  "aggregateHours day [] result = Inr result"
| "aggregateHours day (hour # rest) result =
     (case dsHours day hour of
        None \<Rightarrow> aggregateHours day rest result
      | Some hourStats \<Rightarrow>
          if hsSamples hourStats = 0 then aggregateHours day rest result
          else
            (case mdByHour result hour of
               None \<Rightarrow> Inl NilPointerDereference
             | Some agg \<Rightarrow>
                 aggregateHours day rest
                   (result\<lparr>mdByHour := (mdByHour result)(hour \<mapsto> addHour agg hourStats)\<rparr>)))"

fun aggregateAll :: "DailyStats option list \<Rightarrow> MultiDayStats \<Rightarrow> error + MultiDayStats" where
  "aggregateAll [] result = Inr result"
| "aggregateAll (None # rest) result = Inl NilPointerDereference"
| "aggregateAll (Some day # rest) result =
     (case aggregateHours day [0..<24] result of
        Inl e \<Rightarrow> Inl e
      | Inr result1 \<Rightarrow> aggregateAll rest result1)"

text \<open>The statistics of one hour with at least one counted day (lines 208 to 215).\<close>

definition hourStatistics :: "AggregatedHourStats \<Rightarrow> AggregatedHourStats" where
  "hourStatistics agg =
     (let sum = foldl (\<lambda>s v. s + v) 0 (aggValues agg);
          a1 = agg\<lparr>aggAverage := sum / real (length (aggValues agg))\<rparr>;
          a2 = a1\<lparr>aggMedian := CalculateMedian (aggValues a1)\<rparr>
      in a2\<lparr>aggStdDev := CalculateStdDev (aggValues a2) (aggAverage a2)\<rparr>)"

text \<open>The loop of lines 198 to 222; its state is the result and the local \<open>maxAvg\<close>.\<close>

fun finalStatistics ::
  "nat list \<Rightarrow> MultiDayStats \<times> float64 \<Rightarrow> error + MultiDayStats \<times> float64" where
  "finalStatistics [] st = Inr st"
| "finalStatistics (hour # rest) (result, maxAvg) =
     (case mdByHour result hour of
        None \<Rightarrow> Inl NilPointerDereference
      | Some agg \<Rightarrow>
          if aggSampleDays agg = 0 then
            finalStatistics rest
              (result\<lparr>mdByHour := (mdByHour result)(hour \<mapsto> agg\<lparr>aggMin := 0, aggMax := 0\<rparr>)\<rparr>,
               maxAvg)
          else
            let agg1 = hourStatistics agg;
                result1 = result\<lparr>mdByHour := (mdByHour result)(hour \<mapsto> agg1)\<rparr>
            in if aggAverage agg1 > maxAvg then
                 finalStatistics rest
                   (result1\<lparr>mdPeakHour := int hour, mdPeakPowerAvg := aggAverage agg1\<rparr>,
                    aggAverage agg1)
               else finalStatistics rest (result1, maxAvg))"

definition dailyEnergy :: "DailyStats \<Rightarrow> float64" where
  "dailyEnergy day =
     foldl (\<lambda>e hour. case dsHours day hour of None \<Rightarrow> e | Some h \<Rightarrow> e + hsMean h / 1000)
       0 [0..<24]"

fun totalProduction :: "DailyStats option list \<Rightarrow> MultiDayStats \<Rightarrow> error + MultiDayStats" where
  "totalProduction [] result = Inr result"
| "totalProduction (None # rest) result = Inl NilPointerDereference"
| "totalProduction (Some day # rest) result =
     totalProduction rest
       (result\<lparr>mdTotalProduction := mdTotalProduction result + dailyEnergy day\<rparr>)"

definition dailyAverage :: "MultiDayStats \<Rightarrow> MultiDayStats" where
  "dailyAverage result =
     (if mdDaysAnalyzed result > 0 then
        result\<lparr>mdDailyAverage := mdTotalProduction result / of_int (mdDaysAnalyzed result)\<rparr>
      else result)"

definition AggregateDays :: "DailyStats option list \<Rightarrow> error + MultiDayStats option" where
  "AggregateDays days =
     (if length days = 0 then Inr None
      else
        case days ! 0 of
          None \<Rightarrow> Inl NilPointerDereference
        | Some first \<Rightarrow>
            (case days ! (length days - 1) of
               None \<Rightarrow> Inl NilPointerDereference
             | Some final \<Rightarrow>
                 let result = initByHour
                       \<lparr>mdStartDate = dsDate first, mdEndDate = dsDate final,
                        mdDaysAnalyzed = int (length days), mdByHour = (\<lambda>i. None),
                        mdTotalProduction = 0, mdDailyAverage = 0,
                        mdPeakHour = 0, mdPeakPowerAvg = 0\<rparr>
                 in (case aggregateAll days result of
                      Inl e \<Rightarrow> Inl e
                    | Inr result1 \<Rightarrow>
                        (case finalStatistics [0..<24] (result1, 0) of
                           Inl e \<Rightarrow> Inl e
                         | Inr st \<Rightarrow>
                             (case totalProduction days (fst st) of
                                Inl e \<Rightarrow> Inl e
                              | Inr result3 \<Rightarrow> Inr (Some (dailyAverage result3)))))))"

section \<open>The row view\<close>

definition dayRows :: "DailyStats \<Rightarrow> HourlyRow list \<Rightarrow> HourlyRow list" where
  "dayRows day rows =
     foldl (\<lambda>rs hour.
              case dsHours day hour of
                None \<Rightarrow> rs
              | Some h \<Rightarrow>
                  rs @ [\<lparr>rowDate = dsDate day, rowHour = int hour, rowMin = hsMin h,
                         rowMax = hsMax h, rowAvg = hsMean h, rowSamples = hsSamples h\<rparr>])
       rows [0..<24]"

fun allRows :: "DailyStats option list \<Rightarrow> HourlyRow list \<Rightarrow> error + HourlyRow list" where
  "allRows [] rows = Inr rows"
| "allRows (None # rest) rows = Inl NilPointerDereference"
| "allRows (Some day # rest) rows = allRows rest (dayRows day rows)"

definition GetHourlyRows :: "DailyStats option list \<Rightarrow> error + HourlyRow list" where
  "GetHourlyRows days = allRows days []"

section \<open>The median on a store of arrays\<close>

text \<open>
  \<open>CalculateMedian\<close> receives a slice, which shares its array with the caller, and
  \<open>sort.Float64s\<close> sorts in place. To state what the call does to the caller's array the
  arrays live in a store: an array is named by its index in the store, \<open>make\<close> appends
  a new zeroed array, \<open>copy\<close> overwrites the first \<open>min (len dst) (len src)\<close> elements of
  the destination, and the sort replaces an array by its sorted permutation. A \<open>nil\<close>
  slice is \<open>None\<close>; its length is \<open>0\<close>.
\<close>

type_synonym store = "float64 list list"

definition len :: "store \<Rightarrow> nat option \<Rightarrow> nat" where
  "len st a = (case a of None \<Rightarrow> 0 | Some i \<Rightarrow> length (st ! i))"

definition make :: "store \<Rightarrow> nat \<Rightarrow> store \<times> nat" where
  "make st n = (st @ [replicate n 0], length st)"

definition copy :: "store \<Rightarrow> nat \<Rightarrow> nat \<Rightarrow> store" where
  "copy st dst src =
     (let k = min (length (st ! dst)) (length (st ! src))
      in st[dst := take k (st ! src) @ drop k (st ! dst)])"

definition sortFloat64s :: "store \<Rightarrow> nat \<Rightarrow> store" where
  "sortFloat64s st a = st[a := sort (st ! a)]"

definition CalculateMedianStore :: "store \<Rightarrow> nat option \<Rightarrow> float64 \<times> store" where
  "CalculateMedianStore st values =
     (if len st values = 0 then (0, st)
      else
        let (st1, sorted) = make st (len st values);
            st2 = copy st1 sorted (the values);
            st3 = sortFloat64s st2 sorted;
            n = length (st3 ! sorted)
        in if n mod 2 = 0
           then ((st3 ! sorted ! (n div 2 - 1) + st3 ! sorted ! (n div 2)) / 2, st3)
           else (st3 ! sorted ! (n div 2), st3))"

section \<open>Functions used to state the properties\<close>

text \<open>The powers of the samples of hour \<open>i\<close>, in the order of the input.\<close>

definition samplesOfHour :: "ParsedPowerData list \<Rightarrow> nat \<Rightarrow> float64 list" where
  "samplesOfHour data i = map pdPower (filter (\<lambda>p. pdHour p = int i) data)"

text \<open>The buckets of hour \<open>h\<close> that are present (not \<open>nil\<close>), in the order of the days.\<close>

definition bucketsAt :: "DailyStats list \<Rightarrow> nat \<Rightarrow> HourlyStats list" where
  "bucketsAt ds h = List.map_filter (\<lambda>d. dsHours d h) ds"

text \<open>What the loop of lines 198 to 222 does to the aggregate of one hour.\<close>

definition finalHour :: "AggregatedHourStats \<Rightarrow> AggregatedHourStats" where
  "finalHour agg =
     (if aggSampleDays agg = 0 then agg\<lparr>aggMin := 0, aggMax := 0\<rparr> else hourStatistics agg)"

text \<open>
  The running maximum of the same loop on a list of hours with their averages; the
  state is \<open>maxAvg\<close>, \<open>PeakHour\<close> and \<open>PeakPowerAvg\<close>.
\<close>

fun peakScan :: "(nat \<times> float64) list \<Rightarrow> float64 \<times> int \<times> float64 \<Rightarrow> float64 \<times> int \<times> float64" where
  "peakScan [] st = st"
| "peakScan ((h, a) # rest) (maxAvg, peakHour, peakAvg) =
     (if a > maxAvg then peakScan rest (a, int h, a)
      else peakScan rest (maxAvg, peakHour, peakAvg))"

text \<open>The rows of hour \<open>h\<close> of one day: one row if the bucket is present, none if it is \<open>nil\<close>.\<close>

definition bucketRows :: "DailyStats \<Rightarrow> nat \<Rightarrow> HourlyRow list" where
  "bucketRows day h =
     (case dsHours day h of
        None \<Rightarrow> []
      | Some b \<Rightarrow>
          [\<lparr>rowDate = dsDate day, rowHour = int h, rowMin = hsMin b, rowMax = hsMax b,
            rowAvg = hsMean b, rowSamples = hsSamples b\<rparr>])"

text \<open>
  The hours of a list that the loop of lines 198 to 222 compares with \<open>maxAvg\<close>, each with
  the average it computes: the hours whose aggregate counts at least one day.
\<close>

definition candidates :: "MultiDayStats \<Rightarrow> nat list \<Rightarrow> (nat \<times> float64) list" where
  "candidates result hs =
     map (\<lambda>h. (h, aggAverage (hourStatistics (the (mdByHour result h)))))
       (filter (\<lambda>h. aggSampleDays (the (mdByHour result h)) \<noteq> 0) hs)"

text \<open>The bucket of an hour after its values were added and it was finalized.\<close>

definition hourBucket :: "int \<Rightarrow> float64 list \<Rightarrow> HourlyStats" where
  "hourBucket hour values = Finalize (foldl AddValue (NewHourlyStats hour) values)"

text \<open>
  An example day: samples at hour 12 only. It is the \<open>DailyStats\<close> that
  \<open>AggregateToHourly\<close> returns for such samples.
\<close>

definition noonDay :: "string \<Rightarrow> float64 list \<Rightarrow> DailyStats" where
  "noonDay date watts =
     \<lparr>dsDate = date,
      dsHours = (\<lambda>i. if i < 24 then Some (hourBucket (int i) (if i = 12 then watts else []))
                     else None)\<rparr>"

text \<open>
  The buckets of hour \<open>h\<close> with a positive sample count, in the order of the days: the
  days that contribute to the hour.
\<close>

definition contributing :: "DailyStats list \<Rightarrow> nat \<Rightarrow> HourlyStats list" where
  "contributing ds h = filter (\<lambda>b. 0 < hsSamples b) (bucketsAt ds h)"

text \<open>The three days of the package's test of \<open>AggregateDays\<close>.\<close>

definition exampleDays :: "DailyStats list" where
  "exampleDays =
     [noonDay ''2025-02-01'' [4000, 4200],
      noonDay ''2025-02-02'' [4500, 4700],
      noonDay ''2025-02-03'' [4100, 4300]]"

section \<open>Idle hours\<close>

text \<open>
  Claim C3. A bucket to which no value was added is the one \<open>NewHourlyStats\<close> returns.
  After \<open>Finalize\<close> its minimum, maximum, mean and standard deviation are all \<open>0\<close>: the
  sentinels \<open>MaxFloat64\<close> and \<open>- MaxFloat64\<close> are overwritten, and the sample count
  stays \<open>0\<close> with an empty value list.
\<close>

theorem Finalize_idle_hour:
  "hsMin (Finalize (NewHourlyStats hour)) = 0 \<and>
   hsMax (Finalize (NewHourlyStats hour)) = 0 \<and>
   hsMean (Finalize (NewHourlyStats hour)) = 0 \<and>
   hsStdDev (Finalize (NewHourlyStats hour)) = 0 \<and>
   hsSamples (Finalize (NewHourlyStats hour)) = 0 \<and>
   hsValues (Finalize (NewHourlyStats hour)) = []"
  by (simp add: Finalize_def NewHourlyStats_def)

section \<open>The accumulator\<close>

lemma AddValue_fields:
  "hsHour (AddValue h v) = hsHour h"
  "hsSamples (AddValue h v) = hsSamples h + 1"
  "hsSum (AddValue h v) = hsSum h + v"
  "hsValues (AddValue h v) = hsValues h @ [v]"
  "hsMin (AddValue h v) = min (hsMin h) v"
  "hsMax (AddValue h v) = max (hsMax h) v"
  "hsMean (AddValue h v) = hsMean h"
  "hsStdDev (AddValue h v) = hsStdDev h"
  by (simp_all add: AddValue_def Let_def min_def max_def)

lemma foldl_AddValue_fields:
  "hsHour (foldl AddValue h vs) = hsHour h"
  "hsSamples (foldl AddValue h vs) = hsSamples h + int (length vs)"
  "hsSum (foldl AddValue h vs) = hsSum h + sum_list vs"
  "hsValues (foldl AddValue h vs) = hsValues h @ vs"
  "hsMin (foldl AddValue h vs) = foldl min (hsMin h) vs"
  "hsMax (foldl AddValue h vs) = foldl max (hsMax h) vs"
  "hsMean (foldl AddValue h vs) = hsMean h"
  "hsStdDev (foldl AddValue h vs) = hsStdDev h"
  by (induction vs arbitrary: h; simp add: AddValue_fields)+

lemma foldl_min_Min: "foldl min (a::real) vs = Min (insert a (set vs))"
proof (induction vs arbitrary: a)
  case Nil
  show ?case by simp
next
  case (Cons v vs)
  have "Min (insert (min a v) (set vs)) = Min (insert a (insert v (set vs)))"
    by (cases "set vs = {}") (simp_all add: min.assoc)
  with Cons show ?case by simp
qed

lemma foldl_max_Max: "foldl max (a::real) vs = Max (insert a (set vs))"
proof (induction vs arbitrary: a)
  case Nil
  show ?case by simp
next
  case (Cons v vs)
  have "Max (insert (max a v) (set vs)) = Max (insert a (insert v (set vs)))"
    by (cases "set vs = {}") (simp_all add: max.assoc)
  with Cons show ?case by simp
qed

lemma foldl_min_bounded:
  assumes "vs \<noteq> []" "\<forall>v\<in>set vs. v \<le> (a::real)"
  shows "foldl min a vs = Min (set vs)"
proof -
  have "Min (set vs) \<le> a" using assms by (meson List.finite_set Min_le dual_order.trans last_in_set)
  moreover have "Min (insert a (set vs)) = min a (Min (set vs))"
    using assms(1) by (intro Min_insert) auto
  ultimately show ?thesis by (simp add: foldl_min_Min)
qed

lemma foldl_max_bounded:
  assumes "vs \<noteq> []" "\<forall>v\<in>set vs. (a::real) \<le> v"
  shows "foldl max a vs = Max (set vs)"
proof -
  have "a \<le> Max (set vs)" using assms by (meson List.finite_set Max_ge dual_order.trans last_in_set)
  moreover have "Max (insert a (set vs)) = max a (Max (set vs))"
    using assms(1) by (intro Max_insert) auto
  ultimately show ?thesis by (simp add: foldl_max_Max)
qed

lemma MaxFloat64_val: "MaxFloat64 = 179769313486231570814527423731704356798070567525844996598917476803157260780028538760589558632766878171540458953514382464234321326889464182768467546703537516986049910576551282076245490090389328944075868508455133942304583236903222948165808559332123348274797826204144723168738177180919299881250404026184124858368"
  unfolding MaxFloat64_def by simp

lemma AddValue64_fields:
  "hxSamples (AddValue64 h v) = hxSamples h + 1"
  "hxSum (AddValue64 h v) = add64 (hxSum h) v"
  "hxValues (AddValue64 h v) = hxValues h @ [v]"
  "hxMin (AddValue64 h v) = (if less64 v (hxMin h) then v else hxMin h)"
  "hxMax (AddValue64 h v) = (if less64 (hxMax h) v then v else hxMax h)"
  by (simp_all add: AddValue64_def Let_def)

lemma foldl_AddValue64_fields:
  "hxSamples (foldl AddValue64 h vs) = hxSamples h + int (length vs)"
  "hxSum (foldl AddValue64 h vs) = foldl add64 (hxSum h) vs"
  "hxValues (foldl AddValue64 h vs) = hxValues h @ vs"
  by (induction vs arbitrary: h; simp add: AddValue64_fields)+

lemma NewHourlyStats64_finite: "NewHourlyStats64 hour = finiteStats (NewHourlyStats hour)"
  by (simp add: NewHourlyStats64_def finiteStats_def NewHourlyStats_def)

lemma AddValue64_finite: "AddValue64 (finiteStats h) (Finite v) = finiteStats (AddValue h v)"
  by (simp add: AddValue64_def AddValue_def finiteStats_def Let_def)

lemma foldl_AddValue64_finite:
  "foldl AddValue64 (finiteStats h) (map Finite rs) = finiteStats (foldl AddValue h rs)"
  by (induction rs arbitrary: h) (simp_all add: AddValue64_finite)

lemma finiteStats_fields:
  "hxSamples (finiteStats h) = hsSamples h"
  "hxSum (finiteStats h) = Finite (hsSum h)"
  "hxMin (finiteStats h) = Finite (hsMin h)"
  "hxMax (finiteStats h) = Finite (hsMax h)"
  "hxValues (finiteStats h) = map Finite (hsValues h)"
  by (simp_all add: finiteStats_def)

text \<open>
  Claim C9, as the code has it. Start from a new bucket and add the \<open>float64\<close> values
  \<open>vs\<close> one after the other. Before \<open>Finalize\<close> the sample count is the length of the value
  list, the value list is \<open>vs\<close> and the sum is the sum of the values, added from left to
  right. When the values are the finite values \<open>rs\<close> (between \<open>- MaxFloat64\<close> and
  \<open>MaxFloat64\<close>), the bucket is the one of the model on the reals, its sum is the sum of
  \<open>rs\<close>, and when the count is positive its minimum and maximum are those of \<open>rs\<close>.
\<close>

theorem AddValue_accumulator_consistent:
  "hxSamples (foldl AddValue64 (NewHourlyStats64 hour) vs) = int (length vs) \<and>
   hxValues (foldl AddValue64 (NewHourlyStats64 hour) vs) = vs \<and>
   hxSum (foldl AddValue64 (NewHourlyStats64 hour) vs) = foldl add64 (Finite 0) vs \<and>
   foldl AddValue64 (NewHourlyStats64 hour) (map Finite rs)
     = finiteStats (foldl AddValue (NewHourlyStats hour) rs) \<and>
   ((\<forall>r\<in>set rs. - MaxFloat64 \<le> r \<and> r \<le> MaxFloat64) \<longrightarrow>
      hxSum (foldl AddValue64 (NewHourlyStats64 hour) (map Finite rs)) = Finite (sum_list rs) \<and>
      (0 < hxSamples (foldl AddValue64 (NewHourlyStats64 hour) (map Finite rs)) \<longrightarrow>
         hxMin (foldl AddValue64 (NewHourlyStats64 hour) (map Finite rs)) = Finite (Min (set rs)) \<and>
         hxMax (foldl AddValue64 (NewHourlyStats64 hour) (map Finite rs)) = Finite (Max (set rs))))"
proof -
  have fin: "foldl AddValue64 (NewHourlyStats64 hour) (map Finite rs)
      = finiteStats (foldl AddValue (NewHourlyStats hour) rs)"
    by (simp add: NewHourlyStats64_finite foldl_AddValue64_finite)
  have mn: "foldl min MaxFloat64 rs = Min (set rs)"
    if "rs \<noteq> []" "\<forall>r\<in>set rs. - MaxFloat64 \<le> r \<and> r \<le> MaxFloat64"
    using that by (intro foldl_min_bounded) auto
  have mx: "foldl max (- MaxFloat64) rs = Max (set rs)"
    if "rs \<noteq> []" "\<forall>r\<in>set rs. - MaxFloat64 \<le> r \<and> r \<le> MaxFloat64"
    using that by (intro foldl_max_bounded) auto
  have any: "hxSamples (foldl AddValue64 (NewHourlyStats64 hour) vs) = int (length vs)"
    "hxValues (foldl AddValue64 (NewHourlyStats64 hour) vs) = vs"
    "hxSum (foldl AddValue64 (NewHourlyStats64 hour) vs) = foldl add64 (Finite 0) vs"
    by (simp_all add: foldl_AddValue64_fields NewHourlyStats64_def)
  have finite: "hxSum (finiteStats (foldl AddValue (NewHourlyStats hour) rs)) = Finite (sum_list rs)"
    "0 < hxSamples (finiteStats (foldl AddValue (NewHourlyStats hour) rs)) \<longrightarrow> rs \<noteq> []"
    "hxMin (finiteStats (foldl AddValue (NewHourlyStats hour) rs)) = Finite (foldl min MaxFloat64 rs)"
    "hxMax (finiteStats (foldl AddValue (NewHourlyStats hour) rs))
       = Finite (foldl max (- MaxFloat64) rs)"
    by (auto simp: finiteStats_fields foldl_AddValue_fields NewHourlyStats_def)
  show ?thesis
    unfolding fin using any fin finite mn mx by auto
qed

theorem AddValue_accumulator_consistent_witness:
  "list_all (\<lambda>r. - MaxFloat64 \<le> r \<and> r \<le> MaxFloat64) [100, 200, 300, 400, 500] \<and>
   hxSamples (foldl AddValue64 (NewHourlyStats64 12) (map Finite [100, 200, 300, 400, 500])) = 5 \<and>
   hxSum (foldl AddValue64 (NewHourlyStats64 12) (map Finite [100, 200, 300, 400, 500]))
     = Finite 1500 \<and>
   hxMin (foldl AddValue64 (NewHourlyStats64 12) (map Finite [100, 200, 300, 400, 500]))
     = Finite 100 \<and>
   hxMax (foldl AddValue64 (NewHourlyStats64 12) (map Finite [100, 200, 300, 400, 500]))
     = Finite 500"
proof -
  define rs :: "real list" where "rs = [100, 200, 300, 400, 500]"
  have h: "\<forall>r\<in>set rs. - MaxFloat64 \<le> r \<and> r \<le> MaxFloat64"
    by (simp add: rs_def MaxFloat64_val)
  have vals: "int (length rs) = 5" "sum_list rs = 1500" "Min (set rs) = 100" "Max (set rs) = 500"
    by (simp_all add: rs_def)
  note c = AddValue_accumulator_consistent [of 12 "map Finite rs" rs]
  from c [THEN conjunct1] vals
  have n: "hxSamples (foldl AddValue64 (NewHourlyStats64 12) (map Finite rs)) = 5"
    by simp
  from c [THEN conjunct2, THEN conjunct2, THEN conjunct2, THEN conjunct2] h n vals have
    "hxSum (foldl AddValue64 (NewHourlyStats64 12) (map Finite rs)) = Finite 1500"
    "hxMin (foldl AddValue64 (NewHourlyStats64 12) (map Finite rs)) = Finite 100"
    "hxMax (foldl AddValue64 (NewHourlyStats64 12) (map Finite rs)) = Finite 500"
    by simp_all
  moreover have "list_all (\<lambda>r. - MaxFloat64 \<le> r \<and> r \<le> MaxFloat64) rs"
    using h by (simp add: list_all_iff)
  ultimately show ?thesis
    unfolding rs_def [symmetric] using n by simp
qed

text \<open>
  One sample, \<open>+Inf\<close>, added to a new bucket: the count is \<open>1\<close>, the value list holds the
  sample, and the minimum is still the sentinel \<open>MaxFloat64\<close>, which lies below the one
  value of the list.
\<close>

theorem AddValue_infinite_sample_counterexample:
  "hxSamples (foldl AddValue64 (NewHourlyStats64 12) [PosInf]) = 1 \<and>
   hxValues (foldl AddValue64 (NewHourlyStats64 12) [PosInf]) = [PosInf] \<and>
   hxMin (foldl AddValue64 (NewHourlyStats64 12) [PosInf]) = Finite MaxFloat64 \<and>
   less64 (hxMin (foldl AddValue64 (NewHourlyStats64 12) [PosInf])) PosInf"
  by (simp add: AddValue64_def NewHourlyStats64_def Let_def)

section \<open>Standard deviation and median\<close>

lemma foldl_sumSquares:
  "foldl (\<lambda>s v. s + (v - mean) * (v - mean)) (a::real) vs
     = a + (\<Sum>v\<leftarrow>vs. (v - mean)\<^sup>2)"
  by (induction vs arbitrary: a) (simp_all add: power2_eq_square)

lemma foldl_plus_sum_list: "foldl (\<lambda>s v. s + v) (a::real) vs = a + sum_list vs"
  by (induction vs arbitrary: a) simp_all

lemma CalculateStdDev_eq:
  "CalculateStdDev vs mean =
     (if length vs < 2 then 0
      else sqrt ((\<Sum>v\<leftarrow>vs. (v - mean)\<^sup>2) / (real (length vs) - 1)))"
  by (simp add: CalculateStdDev_def Let_def foldl_sumSquares)

text \<open>
  Claim C4. \<open>CalculateStdDev\<close> returns \<open>0\<close> for a list of fewer than two values and
  otherwise the square root of the sum of the squared differences to the given mean,
  divided by \<open>n - 1\<close>. For the values \<open>2, 4, 4, 4, 5, 5, 7, 9\<close> with mean \<open>5\<close> that is
  \<open>sqrt (32 / 7)\<close>. The hourly aggregator (\<open>Finalize\<close>) and the multi-day aggregator
  (\<open>hourStatistics\<close>) both take their standard deviation from this function, applied to
  their value list and its mean.
\<close>

theorem CalculateStdDev_sample_formula:
  "CalculateStdDev vs mean =
     (if length vs < 2 then 0
      else sqrt ((\<Sum>v\<leftarrow>vs. (v - mean)\<^sup>2) / (real (length vs) - 1))) \<and>
   CalculateStdDev [2, 4, 4, 4, 5, 5, 7, 9] 5 = sqrt (32 / 7) \<and>
   hsStdDev (Finalize h) =
     (if hsSamples h = 0 then hsStdDev h
      else CalculateStdDev (hsValues h) (hsSum h / of_int (hsSamples h))) \<and>
   aggStdDev (hourStatistics agg) =
     CalculateStdDev (aggValues agg) (sum_list (aggValues agg) / real (length (aggValues agg)))"
proof -
  have "CalculateStdDev [2, 4, 4, 4, 5, 5, 7, 9] 5 = sqrt (32 / 7)"
    by (simp add: CalculateStdDev_eq)
  then show ?thesis
    by (simp add: CalculateStdDev_eq Finalize_def hourStatistics_def Let_def foldl_plus_sum_list)
qed

lemma CalculateMedian_sorted:
  assumes "sorted s" "mset s = mset vs"
  shows "CalculateMedian vs =
     (if vs = [] then 0
      else if even (length vs) then (s ! (length vs div 2 - 1) + s ! (length vs div 2)) / 2
      else s ! (length vs div 2))"
proof -
  have "sort vs = s" using assms by (simp add: properties_for_sort)
  then show ?thesis by (auto simp: CalculateMedian_def Let_def)
qed

text \<open>
  Claim C5. Let \<open>s\<close> be the values in increasing order (a sorted permutation of the
  argument). \<open>CalculateMedian\<close> returns \<open>0\<close> for the empty list, the average of the two
  middle elements of \<open>s\<close> for an even length and the middle element of \<open>s\<close> for an odd
  length. The medians of \<open>[1,3,5]\<close>, \<open>[1,2,3,4]\<close> and \<open>[5,2,8,1,9]\<close> are \<open>3\<close>, \<open>2.5\<close>
  and \<open>5\<close>.
\<close>

theorem CalculateMedian_middle:
  assumes "sorted s" "mset s = mset vs"
  shows "CalculateMedian vs =
     (if vs = [] then 0
      else if even (length vs) then (s ! (length vs div 2 - 1) + s ! (length vs div 2)) / 2
      else s ! (length vs div 2)) \<and>
   CalculateMedian [1, 3, 5] = 3 \<and>
   CalculateMedian [1, 2, 3, 4] = 5 / 2 \<and>
   CalculateMedian [5, 2, 8, 1, 9] = 5"
proof -
  have "CalculateMedian [1, 3, 5] = 3" "CalculateMedian [1, 2, 3, 4] = 5 / 2"
    "CalculateMedian [5, 2, 8, 1, 9] = 5"
    by (simp_all add: CalculateMedian_def)
  with CalculateMedian_sorted [OF assms] show ?thesis by simp
qed

theorem CalculateMedian_middle_witness:
  "sorted [10, 20, 30, 40 :: real] \<and> mset [10, 20, 30, 40 :: real] = mset [40, 10, 30, 20] \<and>
   CalculateMedian [40, 10, 30, 20] = 25"
proof -
  have s: "sorted [10, 20, 30, 40 :: real]" by simp
  have m: "mset [10, 20, 30, 40 :: real] = mset [40, 10, 30, 20]" by simp
  show ?thesis using s m CalculateMedian_middle [OF s m] by simp
qed

section \<open>What the hourly aggregator returns\<close>

lemma foldl_upt_dsHours:
  assumes "\<And>s i. dsHours (F s i) = (dsHours s)(i \<mapsto> f i)"
    and "\<And>s i. dsDate (F s i) = dsDate s"
    and "\<And>s i. DailyStats.more (F s i) = DailyStats.more s"
  shows "foldl F stats [0..<n]
     = stats\<lparr>dsHours := (\<lambda>i. if i < n then Some (f i) else dsHours stats i)\<rparr>"
proof (induction n)
  case 0
  show ?case by simp
next
  case (Suc n)
  have "foldl F stats [0..<Suc n] = F (foldl F stats [0..<n]) n" by simp
  also have "\<dots> = stats\<lparr>dsHours := (\<lambda>i. if i < Suc n then Some (f i) else dsHours stats i)\<rparr>"
    unfolding Suc by (rule DailyStats.equality) (auto simp: assms fun_eq_iff)
  finally show ?case .
qed

lemma initHours_eq:
  "initHours stats =
     stats\<lparr>dsHours := (\<lambda>i. if i < 24 then Some (NewHourlyStats (int i)) else dsHours stats i)\<rparr>"
  unfolding initHours_def by (rule foldl_upt_dsHours) simp_all

lemma samplesOfHour_Cons:
  "samplesOfHour (p # ps) i =
     (if pdHour p = int i then pdPower p # samplesOfHour ps i else samplesOfHour ps i)"
  by (simp add: samplesOfHour_def)

lemma addValues_eq:
  "\<forall>i<24. dsHours stats i \<noteq> None \<Longrightarrow>
   addValues ps stats =
     Inr (stats\<lparr>dsHours := (\<lambda>i. if i < 24
            then map_option (\<lambda>h. foldl AddValue h (samplesOfHour ps i)) (dsHours stats i)
            else dsHours stats i)\<rparr>)"
proof (induction ps arbitrary: stats)
  case Nil
  show ?case
    by (auto simp: samplesOfHour_def fun_eq_iff option.map_ident intro!: DailyStats.equality)
next
  case (Cons p ps)
  show ?case
  proof (cases "0 \<le> pdHour p \<and> pdHour p < 24")
    case False
    then have "\<And>i. i < 24 \<Longrightarrow> pdHour p \<noteq> int i" by auto
    then have "\<And>i. i < 24 \<Longrightarrow> samplesOfHour (p # ps) i = samplesOfHour ps i"
      by (simp add: samplesOfHour_Cons)
    then have "(\<lambda>i. if i < 24
            then map_option (\<lambda>h. foldl AddValue h (samplesOfHour (p # ps) i)) (dsHours stats i)
            else dsHours stats i)
       = (\<lambda>i. if i < 24
            then map_option (\<lambda>h. foldl AddValue h (samplesOfHour ps i)) (dsHours stats i)
            else dsHours stats i)"
      by (auto simp: fun_eq_iff)
    moreover have "addValues (p # ps) stats = addValues ps stats"
      using False by auto
    ultimately show ?thesis using Cons by simp
  next
    case True
    define k where "k = nat (pdHour p)"
    have k: "k < 24" "pdHour p = int k" using True by (auto simp: k_def)
    obtain h where h: "dsHours stats k = Some h" using Cons.prems k by auto
    define stats1 where "stats1 = stats\<lparr>dsHours := (dsHours stats)(k \<mapsto> AddValue h (pdPower p))\<rparr>"
    have pres: "\<forall>i<24. dsHours stats1 i \<noteq> None"
      using Cons.prems by (simp add: stats1_def)
    have step: "addValues (p # ps) stats = addValues ps stats1"
      using True h by (simp add: k_def stats1_def)
    have "(\<lambda>i. if i < 24
            then map_option (\<lambda>h. foldl AddValue h (samplesOfHour ps i)) (dsHours stats1 i)
            else dsHours stats1 i)
       = (\<lambda>i. if i < 24
            then map_option (\<lambda>h. foldl AddValue h (samplesOfHour (p # ps) i)) (dsHours stats i)
            else dsHours stats i)"
      using k h by (auto simp: fun_eq_iff stats1_def samplesOfHour_Cons)
    then show ?thesis
      unfolding step Cons.IH [OF pres] by (simp add: stats1_def)
  qed
qed

lemma finalizeHours_eq:
  "distinct hs \<Longrightarrow> \<forall>i\<in>set hs. dsHours stats i \<noteq> None \<Longrightarrow>
   finalizeHours hs stats =
     Inr (stats\<lparr>dsHours := (\<lambda>i. if i \<in> set hs then map_option Finalize (dsHours stats i)
                                else dsHours stats i)\<rparr>)"
proof (induction hs arbitrary: stats)
  case Nil
  show ?case by simp
next
  case (Cons k hs)
  obtain h where h: "dsHours stats k = Some h" using Cons.prems by auto
  define stats1 where "stats1 = stats\<lparr>dsHours := (dsHours stats)(k \<mapsto> Finalize h)\<rparr>"
  have pres: "\<forall>i\<in>set hs. dsHours stats1 i \<noteq> None"
    using Cons.prems by (simp add: stats1_def)
  have d: "distinct hs" "k \<notin> set hs" using Cons.prems by auto
  have step: "finalizeHours (k # hs) stats = finalizeHours hs stats1"
    using h by (simp add: stats1_def)
  have "(\<lambda>i. if i \<in> set hs then map_option Finalize (dsHours stats1 i) else dsHours stats1 i)
      = (\<lambda>i. if i \<in> set (k # hs) then map_option Finalize (dsHours stats i) else dsHours stats i)"
    using d h by (auto simp: fun_eq_iff stats1_def)
  then show ?case
    unfolding step Cons.IH [OF d(1) pres] by (simp add: stats1_def)
qed

lemma AggregateToHourly_eq:
  assumes "data \<noteq> []"
  shows "AggregateToHourly data =
     Inr (Some \<lparr>dsDate = pdDate (hd data),
                dsHours = (\<lambda>i. if i < 24
                   then Some (Finalize (foldl AddValue (NewHourlyStats (int i)) (samplesOfHour data i)))
                   else None)\<rparr>)"
proof -
  define s0 where "s0 = initHours \<lparr>dsDate = pdDate (data ! 0), dsHours = (\<lambda>i. None)\<rparr>"
  have s0: "s0 = \<lparr>dsDate = pdDate (hd data),
                  dsHours = (\<lambda>i. if i < 24 then Some (NewHourlyStats (int i)) else None)\<rparr>"
    using assms by (auto simp: s0_def initHours_eq hd_conv_nth fun_eq_iff)
  have a: "addValues data s0 =
     Inr \<lparr>dsDate = pdDate (hd data),
          dsHours = (\<lambda>i. if i < 24
             then Some (foldl AddValue (NewHourlyStats (int i)) (samplesOfHour data i))
             else None)\<rparr>"
    by (subst addValues_eq) (auto simp: s0 fun_eq_iff)
  have f: "finalizeHours [0..<24]
      \<lparr>dsDate = pdDate (hd data),
          dsHours = (\<lambda>i. if i < 24
             then Some (foldl AddValue (NewHourlyStats (int i)) (samplesOfHour data i))
             else None)\<rparr>
    = Inr \<lparr>dsDate = pdDate (hd data),
                dsHours = (\<lambda>i. if i < 24
                   then Some (Finalize (foldl AddValue (NewHourlyStats (int i)) (samplesOfHour data i)))
                   else None)\<rparr>"
    by (subst finalizeHours_eq) (auto simp: fun_eq_iff)
  show ?thesis
    using assms by (simp add: AggregateToHourly_def Let_def s0_def [symmetric] a f)
qed

section \<open>An example day\<close>

lemma Finalize_fields:
  "hsSamples (Finalize b) = hsSamples b"
  "hsValues (Finalize b) = hsValues b"
  "hsSum (Finalize b) = hsSum b"
  "hsHour (Finalize b) = hsHour b"
  "hsMin (Finalize b) = (if hsSamples b = 0 then 0 else hsMin b)"
  "hsMax (Finalize b) = (if hsSamples b = 0 then 0 else hsMax b)"
  "hsMean (Finalize b) = (if hsSamples b = 0 then hsMean b else hsSum b / of_int (hsSamples b))"
  by (simp_all add: Finalize_def Let_def)

lemma hourBucket_fields:
  "hsHour (hourBucket h ws) = h"
  "hsSamples (hourBucket h ws) = int (length ws)"
  "hsValues (hourBucket h ws) = ws"
  "hsSum (hourBucket h ws) = sum_list ws"
  "hsMean (hourBucket h ws) = (if ws = [] then 0 else sum_list ws / real (length ws))"
  "hsMin (hourBucket h ws) = (if ws = [] then 0 else foldl min MaxFloat64 ws)"
  "hsMax (hourBucket h ws) = (if ws = [] then 0 else foldl max (- MaxFloat64) ws)"
  by (simp_all add: hourBucket_def Finalize_fields foldl_AddValue_fields NewHourlyStats_def)

lemma noonDay_reachable:
  assumes "watts \<noteq> []"
  shows "AggregateToHourly
           (map (\<lambda>w. \<lparr>pdDate = date, pdTime = ''12:00'', pdPower = w, pdHour = 12, pdMinute = 0\<rparr>) watts)
         = Inr (Some (noonDay date watts))"
proof -
  have s: "samplesOfHour
          (map (\<lambda>w. \<lparr>pdDate = date, pdTime = ''12:00'', pdPower = w, pdHour = 12, pdMinute = 0\<rparr>) watts) i
        = (if i = 12 then watts else [])" for i
    by (induction watts) (auto simp: samplesOfHour_def)
  show ?thesis
    using assms
    by (simp add: AggregateToHourly_eq noonDay_def hourBucket_def hd_map s cong: if_cong)
qed

lemma noonDay_bucket:
  "dsHours (noonDay date watts) h =
     (if h < 24 then Some (hourBucket (int h) (if h = 12 then watts else [])) else None)"
  by (simp add: noonDay_def)

section \<open>Empty input\<close>

lemma samplesOfHour_invalid:
  assumes "\<forall>p\<in>set data. pdHour p < 0 \<or> 23 < pdHour p" "h < 24"
  shows "samplesOfHour data h = []"
proof -
  have "\<And>p. p \<in> set data \<Longrightarrow> pdHour p \<noteq> int h" using assms by fastforce
  then show ?thesis by (simp add: samplesOfHour_def)
qed

lemma AggregateDays_Nil: "AggregateDays [] = Inr None"
  by (simp add: AggregateDays_def)

text \<open>
  Claim C1, as the code has it. \<open>AggregateToHourly\<close> returns \<open>nil\<close> exactly when the
  sample list is empty. For a list that is not empty and whose samples all have an hour
  outside \<open>0..23\<close> it returns a \<open>DailyStats\<close> with the date of the first sample and 24
  buckets without samples, each with minimum, maximum, sum, mean and standard deviation
  \<open>0\<close>. It never panics. \<open>AggregateDays\<close> returns \<open>nil\<close> for the empty list of days.
\<close>

theorem AggregateToHourly_no_result_iff_empty:
  "(AggregateToHourly data = Inr None \<longleftrightarrow> data = []) \<and>
   (data \<noteq> [] \<and> (\<forall>p\<in>set data. pdHour p < 0 \<or> 23 < pdHour p) \<longrightarrow>
      (\<exists>d. AggregateToHourly data = Inr (Some d) \<and> dsDate d = pdDate (hd data) \<and>
           (\<forall>h<24. dsHours d h =
              Some \<lparr>hsHour = int h, hsSamples = 0, hsMin = 0, hsMax = 0, hsSum = 0,
                    hsMean = 0, hsStdDev = 0, hsValues = []\<rparr>))) \<and>
   (\<forall>e. AggregateToHourly data \<noteq> Inl e) \<and>
   AggregateDays [] = Inr None"
proof -
  have 1: "AggregateToHourly data = Inr None \<longleftrightarrow> data = []"
    by (cases "data = []") (simp_all add: AggregateToHourly_eq, simp add: AggregateToHourly_def)
  have 2: "\<forall>e. AggregateToHourly data \<noteq> Inl e"
    by (cases "data = []") (simp_all add: AggregateToHourly_eq, simp add: AggregateToHourly_def)
  have 3: "\<exists>d. AggregateToHourly data = Inr (Some d) \<and> dsDate d = pdDate (hd data) \<and>
           (\<forall>h<24. dsHours d h =
              Some \<lparr>hsHour = int h, hsSamples = 0, hsMin = 0, hsMax = 0, hsSum = 0,
                    hsMean = 0, hsStdDev = 0, hsValues = []\<rparr>)"
    if "data \<noteq> []" "\<forall>p\<in>set data. pdHour p < 0 \<or> 23 < pdHour p"
    using that
    by (simp add: AggregateToHourly_eq samplesOfHour_invalid Finalize_def NewHourlyStats_def)
  show ?thesis using 1 2 3 AggregateDays_Nil by blast
qed

theorem AggregateToHourly_no_result_iff_empty_witness:
  "[\<lparr>pdDate = ''2025-02-03'', pdTime = ''25:00'', pdPower = 100, pdHour = 25, pdMinute = 0\<rparr>] \<noteq> [] \<and>
   list_all (\<lambda>p. pdHour p < 0 \<or> 23 < pdHour p)
     [\<lparr>pdDate = ''2025-02-03'', pdTime = ''25:00'', pdPower = 100, pdHour = 25, pdMinute = 0\<rparr>] \<and>
   (\<exists>d. AggregateToHourly
          [\<lparr>pdDate = ''2025-02-03'', pdTime = ''25:00'', pdPower = 100, pdHour = 25, pdMinute = 0\<rparr>]
        = Inr (Some d) \<and> dsDate d = ''2025-02-03'' \<and>
        dsHours d 12 = Some \<lparr>hsHour = 12, hsSamples = 0, hsMin = 0, hsMax = 0, hsSum = 0,
                    hsMean = 0, hsStdDev = 0, hsValues = []\<rparr>)"
  using AggregateToHourly_no_result_iff_empty
    [of "[\<lparr>pdDate = ''2025-02-03'', pdTime = ''25:00'', pdPower = 100, pdHour = 25, pdMinute = 0\<rparr>]"]
  by auto

text \<open>
  A single sample at hour \<open>25\<close>: every sample of the list has an hour outside \<open>0..23\<close>,
  and the result is not \<open>nil\<close>.
\<close>

theorem AggregateToHourly_invalid_hours_counterexample:
  "(pdHour \<lparr>pdDate = ''2025-02-03'', pdTime = ''25:00'', pdPower = 100, pdHour = 25, pdMinute = 0\<rparr> < 0
    \<or> 23 < pdHour \<lparr>pdDate = ''2025-02-03'', pdTime = ''25:00'', pdPower = 100, pdHour = 25, pdMinute = 0\<rparr>) \<and>
   AggregateToHourly
     [\<lparr>pdDate = ''2025-02-03'', pdTime = ''25:00'', pdPower = 100, pdHour = 25, pdMinute = 0\<rparr>]
     \<noteq> Inr None"
  by (simp add: AggregateToHourly_eq)

section \<open>The rows of the hourly export\<close>

lemma dayRows_eq: "dayRows day rows = rows @ concat (map (bucketRows day) [0..<24])"
proof -
  have "foldl (\<lambda>rs hour.
              case dsHours day hour of
                None \<Rightarrow> rs
              | Some h \<Rightarrow>
                  rs @ [\<lparr>rowDate = dsDate day, rowHour = int hour, rowMin = hsMin h,
                         rowMax = hsMax h, rowAvg = hsMean h, rowSamples = hsSamples h\<rparr>])
       rows hs = rows @ concat (map (bucketRows day) hs)" for hs
    by (induction hs arbitrary: rows) (auto simp: bucketRows_def split: option.splits)
  then show ?thesis by (simp add: dayRows_def)
qed

lemma allRows_eq:
  "allRows (map Some ds) rows
     = Inr (rows @ concat (map (\<lambda>d. concat (map (bucketRows d) [0..<24])) ds))"
  by (induction ds arbitrary: rows) (simp_all add: dayRows_eq)

lemma allRows_nil: "None \<in> set days \<Longrightarrow> allRows days rows = Inl NilPointerDereference"
  by (induction days rows rule: allRows.induct) auto

lemma GetHourlyRows_nil_day:
  "None \<in> set days \<Longrightarrow> GetHourlyRows days = Inl NilPointerDereference"
  by (simp add: GetHourlyRows_def allRows_nil)

lemma length_bucketRows: "length (bucketRows d h) = (if dsHours d h = None then 0 else 1)"
  by (simp add: bucketRows_def split: option.splits)

lemma length_concat_full:
  assumes "\<forall>h<n. dsHours d h \<noteq> None"
  shows "length (concat (map (bucketRows d) [0..<n])) = n"
  using assms by (induction n) (simp_all add: length_bucketRows)

text \<open>
  Claim C2, as the code has it. For days that are all present, \<open>GetHourlyRows\<close> returns,
  day after day in the order of the list and hour after hour from \<open>0\<close> to \<open>23\<close>, one row
  for every bucket that is present (not \<open>nil\<close>), whatever its sample count; the row
  carries the date of the day, the hour and the minimum, maximum, mean and sample count
  of the bucket. A day whose 24 buckets are all present, as \<open>AggregateToHourly\<close> builds
  it, gives 24 rows.
\<close>

theorem GetHourlyRows_present_buckets:
  "GetHourlyRows (map Some ds)
     = Inr (concat (map (\<lambda>d. concat (map (bucketRows d) [0..<24])) ds)) \<and>
   (\<forall>d h. bucketRows d h =
      (case dsHours d h of
         None \<Rightarrow> []
       | Some b \<Rightarrow> [\<lparr>rowDate = dsDate d, rowHour = int h, rowMin = hsMin b, rowMax = hsMax b,
                      rowAvg = hsMean b, rowSamples = hsSamples b\<rparr>])) \<and>
   ((\<forall>h<24. dsHours day h \<noteq> None) \<longrightarrow>
      (\<exists>rows. GetHourlyRows [Some day] = Inr rows \<and> length rows = 24))"
proof -
  have "GetHourlyRows [Some day] = Inr (concat (map (bucketRows day) [0..<24]))"
    using allRows_eq [of "[day]" "[]"] by (simp add: GetHourlyRows_def)
  then show ?thesis
    using length_concat_full [of 24 day]
    by (simp add: GetHourlyRows_def allRows_eq bucketRows_def)
qed

text \<open>
  The day of a single sample of 4500 W at 12:00, as \<open>AggregateToHourly\<close> returns it: the
  bucket of hour \<open>0\<close> has no samples, and there are 24 rows, the first one for hour \<open>0\<close>
  with sample count \<open>0\<close>.
\<close>

theorem GetHourlyRows_idle_hour_counterexample:
  "AggregateToHourly
     [\<lparr>pdDate = ''2025-02-03'', pdTime = ''12:00'', pdPower = 4500, pdHour = 12, pdMinute = 0\<rparr>]
     = Inr (Some (noonDay ''2025-02-03'' [4500])) \<and>
   map_option hsSamples (dsHours (noonDay ''2025-02-03'' [4500]) 0) = Some 0 \<and>
   (case GetHourlyRows [Some (noonDay ''2025-02-03'' [4500])] of
      Inl e \<Rightarrow> False
    | Inr rows \<Rightarrow>
        length rows = 24 \<and>
        hd rows = \<lparr>rowDate = ''2025-02-03'', rowHour = 0, rowMin = 0, rowMax = 0,
                   rowAvg = 0, rowSamples = 0\<rparr>)"
proof -
  let ?day = "noonDay ''2025-02-03'' [4500]"
  have reach: "AggregateToHourly
     [\<lparr>pdDate = ''2025-02-03'', pdTime = ''12:00'', pdPower = 4500, pdHour = 12, pdMinute = 0\<rparr>]
     = Inr (Some ?day)"
    using noonDay_reachable [of "[4500]" "''2025-02-03''"] by simp
  have rows: "GetHourlyRows [Some ?day] = Inr (concat (map (bucketRows ?day) [0..<24]))"
    using allRows_eq [of "[?day]" "[]"] by (simp add: GetHourlyRows_def)
  have len: "length (concat (map (bucketRows ?day) [0..<24])) = 24"
    by (rule length_concat_full) (simp add: noonDay_bucket)
  have "[0..<24] = 0 # [1..<24]" by (simp add: upt_rec)
  then have hd: "hd (concat (map (bucketRows ?day) [0..<24])) =
      \<lparr>rowDate = ''2025-02-03'', rowHour = 0, rowMin = 0, rowMax = 0, rowAvg = 0, rowSamples = 0\<rparr>"
    by (simp add: bucketRows_def noonDay_bucket hourBucket_fields noonDay_def)
  show ?thesis
    unfolding rows using reach len hd by (simp add: noonDay_bucket hourBucket_fields)
qed

theorem GetHourlyRows_present_buckets_witness:
  "\<exists>rows. GetHourlyRows [Some (noonDay ''2025-02-03'' [4500])] = Inr rows \<and> length rows = 24"
  using GetHourlyRows_present_buckets [of "[]" "noonDay ''2025-02-03'' [4500]"]
  by (simp add: noonDay_bucket)

section \<open>What the multi-day aggregator returns\<close>

lemma initByHour_eq:
  "initByHour result =
     result\<lparr>mdByHour := (\<lambda>i. if i < 24 then Some (emptyHour i) else mdByHour result i)\<rparr>"
proof -
  define F where "F = (\<lambda>(r::MultiDayStats) i. r\<lparr>mdByHour := (mdByHour r)(i \<mapsto> emptyHour i)\<rparr>)"
  have F: "\<And>r i. F r i = r\<lparr>mdByHour := (mdByHour r)(i \<mapsto> emptyHour i)\<rparr>"
    by (simp add: F_def)
  have "foldl F result [0..<n]
      = result\<lparr>mdByHour := (\<lambda>i. if i < n then Some (emptyHour i) else mdByHour result i)\<rparr>" for n
  proof (induction n)
    case 0
    show ?case by simp
  next
    case (Suc n)
    have "foldl F result [0..<Suc n] = F (foldl F result [0..<n]) n" by simp
    also have "\<dots> = result\<lparr>mdByHour :=
        (\<lambda>i. if i < Suc n then Some (emptyHour i) else mdByHour result i)\<rparr>"
      unfolding Suc F by (rule MultiDayStats.equality) (auto simp: fun_eq_iff)
    finally show ?case .
  qed
  then show ?thesis by (simp add: initByHour_def F_def)
qed

lemma addHour_fields:
  "aggHour (addHour agg b) = aggHour agg"
  "aggSampleDays (addHour agg b) = aggSampleDays agg + 1"
  "aggMin (addHour agg b) = min (aggMin agg) (hsMin b)"
  "aggMax (addHour agg b) = max (aggMax agg) (hsMax b)"
  "aggAverage (addHour agg b) = aggAverage agg"
  "aggMedian (addHour agg b) = aggMedian agg"
  "aggStdDev (addHour agg b) = aggStdDev agg"
  "aggValues (addHour agg b) = aggValues agg @ [hsMean b]"
  by (simp_all add: addHour_def Let_def min_def max_def)

lemma foldl_addHour_fields:
  "aggHour (foldl addHour agg bs) = aggHour agg"
  "aggSampleDays (foldl addHour agg bs) = aggSampleDays agg + int (length bs)"
  "aggMin (foldl addHour agg bs) = foldl min (aggMin agg) (map hsMin bs)"
  "aggMax (foldl addHour agg bs) = foldl max (aggMax agg) (map hsMax bs)"
  "aggAverage (foldl addHour agg bs) = aggAverage agg"
  "aggMedian (foldl addHour agg bs) = aggMedian agg"
  "aggStdDev (foldl addHour agg bs) = aggStdDev agg"
  "aggValues (foldl addHour agg bs) = aggValues agg @ map hsMean bs"
  by (induction bs arbitrary: agg; simp add: addHour_fields)+

lemma bucketsAt_simps:
  "bucketsAt [] h = []"
  "bucketsAt (d # ds) h = (case dsHours d h of None \<Rightarrow> [] | Some b \<Rightarrow> [b]) @ bucketsAt ds h"
  by (simp_all add: bucketsAt_def split: option.splits)

lemma aggregateHours_eq:
  "distinct hs \<Longrightarrow> \<forall>h\<in>set hs. mdByHour result h \<noteq> None \<Longrightarrow>
   aggregateHours day hs result =
     Inr (result\<lparr>mdByHour := (\<lambda>h. if h \<in> set hs
            then map_option
                   (\<lambda>agg. foldl addHour agg (filter (\<lambda>b. hsSamples b \<noteq> 0) (bucketsAt [day] h)))
                   (mdByHour result h)
            else mdByHour result h)\<rparr>)"
proof (induction hs arbitrary: result)
  case Nil
  show ?case by simp
next
  case (Cons k hs)
  have d: "distinct hs" "k \<notin> set hs" using Cons.prems by auto
  obtain agg where agg: "mdByHour result k = Some agg" using Cons.prems by auto
  let ?bs = "filter (\<lambda>b. hsSamples b \<noteq> 0) (bucketsAt [day] k)"
  define result1 where "result1 = result\<lparr>mdByHour := (mdByHour result)(k \<mapsto> foldl addHour agg ?bs)\<rparr>"
  have pres: "\<forall>h\<in>set hs. mdByHour result1 h \<noteq> None"
    using Cons.prems by (simp add: result1_def)
  have same: "result\<lparr>mdByHour := (mdByHour result)(k \<mapsto> agg)\<rparr> = result"
    using agg by (intro MultiDayStats.equality) (auto simp: fun_eq_iff)
  have step: "aggregateHours day (k # hs) result = aggregateHours day hs result1"
    using agg same by (auto simp: result1_def bucketsAt_simps split: option.splits)
  have "result1\<lparr>mdByHour := (\<lambda>h. if h \<in> set hs
            then map_option
                   (\<lambda>agg. foldl addHour agg (filter (\<lambda>b. hsSamples b \<noteq> 0) (bucketsAt [day] h)))
                   (mdByHour result1 h)
            else mdByHour result1 h)\<rparr>
      = result\<lparr>mdByHour := (\<lambda>h. if h \<in> set (k # hs)
            then map_option
                   (\<lambda>agg. foldl addHour agg (filter (\<lambda>b. hsSamples b \<noteq> 0) (bucketsAt [day] h)))
                   (mdByHour result h)
            else mdByHour result h)\<rparr>"
    using d agg by (intro MultiDayStats.equality) (auto simp: fun_eq_iff result1_def)
  then show ?case
    unfolding step Cons.IH [OF d(1) pres] by simp
qed

lemma aggregateAll_eq:
  "\<forall>h<24. mdByHour result h \<noteq> None \<Longrightarrow>
   aggregateAll (map Some ds) result =
     Inr (result\<lparr>mdByHour := (\<lambda>h. if h < 24
            then map_option
                   (\<lambda>agg. foldl addHour agg (filter (\<lambda>b. hsSamples b \<noteq> 0) (bucketsAt ds h)))
                   (mdByHour result h)
            else mdByHour result h)\<rparr>)"
proof (induction ds arbitrary: result)
  case Nil
  have "result\<lparr>mdByHour := (\<lambda>h. if h < 24
            then map_option
                   (\<lambda>agg. foldl addHour agg (filter (\<lambda>b. hsSamples b \<noteq> 0) (bucketsAt [] h)))
                   (mdByHour result h)
            else mdByHour result h)\<rparr> = result"
    by (intro MultiDayStats.equality) (auto simp: fun_eq_iff option.map_ident bucketsAt_simps)
  then show ?case by simp
next
  case (Cons day ds)
  define result1 where "result1 = result\<lparr>mdByHour := (\<lambda>h. if h \<in> set [0..<24]
            then map_option
                   (\<lambda>agg. foldl addHour agg (filter (\<lambda>b. hsSamples b \<noteq> 0) (bucketsAt [day] h)))
                   (mdByHour result h)
            else mdByHour result h)\<rparr>"
  have hours: "aggregateHours day [0..<24] result = Inr result1"
    unfolding result1_def using Cons.prems by (intro aggregateHours_eq) auto
  have pres: "\<forall>h<24. mdByHour result1 h \<noteq> None"
    using Cons.prems by (simp add: result1_def)
  have "result1\<lparr>mdByHour := (\<lambda>h. if h < 24
            then map_option
                   (\<lambda>agg. foldl addHour agg (filter (\<lambda>b. hsSamples b \<noteq> 0) (bucketsAt ds h)))
                   (mdByHour result1 h)
            else mdByHour result1 h)\<rparr>
     = result\<lparr>mdByHour := (\<lambda>h. if h < 24
            then map_option
                   (\<lambda>agg. foldl addHour agg
                      (filter (\<lambda>b. hsSamples b \<noteq> 0) (bucketsAt (day # ds) h)))
                   (mdByHour result h)
            else mdByHour result h)\<rparr>"
    by (intro MultiDayStats.equality)
       (auto simp: fun_eq_iff result1_def bucketsAt_simps option.map_comp comp_def
             split: option.splits)
  then show ?case
    by (simp add: hours Cons.IH [OF pres])
qed

lemma aggregateAll_nil:
  "None \<in> set days \<Longrightarrow> aggregateAll days result = Inl NilPointerDereference"
proof (induction days result rule: aggregateAll.induct)
  case (3 day rest result)
  then show ?case
    by (cases "aggregateHours day [0..<24] result") (auto intro: error.exhaust)
qed simp_all

lemma AggregateDays_nil_day:
  assumes "None \<in> set days"
  shows "AggregateDays days = Inl NilPointerDereference"
proof -
  have "days \<noteq> []" using assms by auto
  then show ?thesis
    using aggregateAll_nil [OF assms]
    by (simp add: AggregateDays_def Let_def split: option.splits)
qed

lemma candidates_Nil: "candidates result [] = []"
  by (simp add: candidates_def)

lemma candidates_Cons:
  "candidates result (k # hs) =
     (if aggSampleDays (the (mdByHour result k)) \<noteq> 0
      then (k, aggAverage (hourStatistics (the (mdByHour result k)))) # candidates result hs
      else candidates result hs)"
  by (simp add: candidates_def)

lemma candidates_cong:
  assumes "\<And>h. h \<in> set hs \<Longrightarrow> mdByHour result1 h = mdByHour result h"
  shows "candidates result1 hs = candidates result hs"
  using assms by (induction hs) (simp_all add: candidates_Nil candidates_Cons)

lemma finalStatistics_eq:
  "distinct hs \<Longrightarrow> \<forall>h\<in>set hs. mdByHour result h \<noteq> None \<Longrightarrow>
   finalStatistics hs (result, maxAvg) =
     Inr (result\<lparr>mdByHour := (\<lambda>h. if h \<in> set hs then map_option finalHour (mdByHour result h)
                                    else mdByHour result h),
                 mdPeakHour := fst (snd (peakScan (candidates result hs)
                                 (maxAvg, mdPeakHour result, mdPeakPowerAvg result))),
                 mdPeakPowerAvg := snd (snd (peakScan (candidates result hs)
                                 (maxAvg, mdPeakHour result, mdPeakPowerAvg result)))\<rparr>,
          fst (peakScan (candidates result hs)
                 (maxAvg, mdPeakHour result, mdPeakPowerAvg result)))"
proof (induction hs arbitrary: result maxAvg)
  case Nil
  show ?case by (simp add: candidates_Nil)
next
  case (Cons k hs)
  have d: "distinct hs" "k \<notin> set hs" using Cons.prems by auto
  obtain agg where agg: "mdByHour result k = Some agg" using Cons.prems by auto
  define st where "st = (if aggSampleDays agg \<noteq> 0 \<and> aggAverage (hourStatistics agg) > maxAvg
     then (aggAverage (hourStatistics agg), int k, aggAverage (hourStatistics agg))
     else (maxAvg, mdPeakHour result, mdPeakPowerAvg result))"
  define result1 where "result1 = result\<lparr>mdByHour := (mdByHour result)(k \<mapsto> finalHour agg),
     mdPeakHour := fst (snd st), mdPeakPowerAvg := snd (snd st)\<rparr>"
  have step: "finalStatistics (k # hs) (result, maxAvg) = finalStatistics hs (result1, fst st)"
    using agg by (simp add: result1_def st_def finalHour_def Let_def)
  have pres: "\<forall>h\<in>set hs. mdByHour result1 h \<noteq> None"
    using Cons.prems by (simp add: result1_def)
  have c1: "candidates result1 hs = candidates result hs"
    using d by (intro candidates_cong) (auto simp: result1_def)
  have scan: "peakScan (candidates result (k # hs)) (maxAvg, mdPeakHour result, mdPeakPowerAvg result)
      = peakScan (candidates result hs) st"
    using agg by (simp add: candidates_Cons st_def)
  have st: "(fst st, mdPeakHour result1, mdPeakPowerAvg result1) = st"
    by (simp add: result1_def)
  have "result1\<lparr>mdByHour := (\<lambda>h. if h \<in> set hs then map_option finalHour (mdByHour result1 h)
                                    else mdByHour result1 h),
                 mdPeakHour := fst (snd (peakScan (candidates result hs) st)),
                 mdPeakPowerAvg := snd (snd (peakScan (candidates result hs) st))\<rparr>
      = result\<lparr>mdByHour := (\<lambda>h. if h \<in> set (k # hs) then map_option finalHour (mdByHour result h)
                                    else mdByHour result h),
                 mdPeakHour := fst (snd (peakScan (candidates result hs) st)),
                 mdPeakPowerAvg := snd (snd (peakScan (candidates result hs) st))\<rparr>"
    using d agg by (intro MultiDayStats.equality) (auto simp: fun_eq_iff result1_def)
  then show ?case
    unfolding step Cons.IH [OF d(1) pres] c1 st scan by simp
qed

lemma peakScan_all_hours:
  assumes "0 \<le> m"
    and "\<And>h. h \<in> set hs \<Longrightarrow> aggSampleDays (the (mdByHour result h)) = 0 \<Longrightarrow> f h = 0"
    and "\<And>h. h \<in> set hs \<Longrightarrow> aggSampleDays (the (mdByHour result h)) \<noteq> 0 \<Longrightarrow>
           f h = aggAverage (hourStatistics (the (mdByHour result h)))"
  shows "peakScan (candidates result hs) (m, ph, pa) = peakScan (map (\<lambda>h. (h, f h)) hs) (m, ph, pa)"
  using assms
proof (induction hs arbitrary: m ph pa)
  case Nil
  show ?case by (simp add: candidates_Nil)
next
  case (Cons k hs)
  show ?case
  proof (cases "aggSampleDays (the (mdByHour result k)) = 0")
    case True
    then have "f k = 0" using Cons.prems by simp
    with True Cons show ?thesis by (simp add: candidates_Cons)
  next
    case False
    then have fk: "f k = aggAverage (hourStatistics (the (mdByHour result k)))"
      using Cons.prems by simp
    show ?thesis
    proof (cases "f k > m")
      case True
      then have "0 \<le> f k" using Cons.prems(1) by simp
      with True False fk Cons show ?thesis by (simp add: candidates_Cons)
    next
      case False
      with \<open>aggSampleDays (the (mdByHour result k)) \<noteq> 0\<close> fk Cons show ?thesis
        by (simp add: candidates_Cons)
    qed
  qed
qed

lemma peakScan_bounds:
  "peakScan (map (\<lambda>h. (h, f h)) hs) (m, ph, pa) = (m', ph', pa') \<Longrightarrow>
   m \<le> m' \<and> (\<forall>h\<in>set hs. f h \<le> m')"
proof (induction hs arbitrary: m ph pa)
  case Nil
  then show ?case by simp
next
  case (Cons k hs)
  show ?case
  proof (cases "f k > m")
    case True
    with Cons.prems have "peakScan (map (\<lambda>h. (h, f h)) hs) (f k, int k, f k) = (m', ph', pa')"
      by simp
    from Cons.IH [OF this] True show ?thesis by auto
  next
    case False
    with Cons.prems have "peakScan (map (\<lambda>h. (h, f h)) hs) (m, ph, pa) = (m', ph', pa')"
      by simp
    from Cons.IH [OF this] False show ?thesis by auto
  qed
qed

lemma peakScan_unchanged:
  "\<forall>h\<in>set hs. f h \<le> m \<Longrightarrow> peakScan (map (\<lambda>h. (h, f h)) hs) (m, ph, pa) = (m, ph, pa)"
  by (induction hs) auto

lemma peakScan_first_maximum:
  "sorted_wrt (<) hs \<Longrightarrow> \<exists>h\<in>set hs. f h > m \<Longrightarrow>
   peakScan (map (\<lambda>h. (h, f h)) hs) (m, ph, pa) = (m', ph', pa') \<Longrightarrow>
   pa' = m' \<and> (\<exists>p\<in>set hs. ph' = int p \<and> f p = m' \<and> (\<forall>h\<in>set hs. h < p \<longrightarrow> f h < m'))"
proof (induction hs arbitrary: m ph pa)
  case Nil
  then show ?case by simp
next
  case (Cons k hs)
  have s: "sorted_wrt (<) hs" "\<forall>h\<in>set hs. k < h" using Cons.prems(1) by auto
  show ?case
  proof (cases "f k > m")
    case True
    with Cons.prems have sc: "peakScan (map (\<lambda>h. (h, f h)) hs) (f k, int k, f k) = (m', ph', pa')"
      by simp
    show ?thesis
    proof (cases "\<exists>h\<in>set hs. f h > f k")
      case False
      then have "\<forall>h\<in>set hs. f h \<le> f k" by auto
      from peakScan_unchanged [OF this] sc have "m' = f k" "ph' = int k" "pa' = f k" by auto
      with s show ?thesis by auto
    next
      case True
      from Cons.IH [OF s(1) True sc] obtain p where
        p: "pa' = m'" "p \<in> set hs" "ph' = int p" "f p = m'" "\<forall>h\<in>set hs. h < p \<longrightarrow> f h < m'"
        by auto
      from True peakScan_bounds [OF sc] have "f k < m'" by fastforce
      with p show ?thesis by auto
    qed
  next
    case False
    with Cons.prems have sc: "peakScan (map (\<lambda>h. (h, f h)) hs) (m, ph, pa) = (m', ph', pa')"
      by simp
    from False Cons.prems(2) have ex: "\<exists>h\<in>set hs. f h > m" by auto
    from Cons.IH [OF s(1) ex sc] obtain p where
      p: "pa' = m'" "p \<in> set hs" "ph' = int p" "f p = m'" "\<forall>h\<in>set hs. h < p \<longrightarrow> f h < m'"
      by auto
    from ex peakScan_bounds [OF sc] False have "f k < m'" by fastforce
    with p show ?thesis by auto
  qed
qed

lemma dailyEnergy_eq:
  "dailyEnergy day = (\<Sum>h\<leftarrow>[0..<24]. case dsHours day h of None \<Rightarrow> 0 | Some b \<Rightarrow> hsMean b / 1000)"
proof -
  have "foldl (\<lambda>e hour. case dsHours day hour of None \<Rightarrow> e | Some h \<Rightarrow> e + hsMean h / 1000) a hs
      = a + (\<Sum>h\<leftarrow>hs. case dsHours day h of None \<Rightarrow> 0 | Some b \<Rightarrow> hsMean b / 1000)" for a hs
    by (induction hs arbitrary: a) (auto split: option.splits)
  then show ?thesis by (simp add: dailyEnergy_def)
qed

lemma totalProduction_eq:
  "totalProduction (map Some ds) result =
     Inr (result\<lparr>mdTotalProduction := mdTotalProduction result + sum_list (map dailyEnergy ds)\<rparr>)"
  by (induction ds arbitrary: result) (simp_all add: add.assoc)

lemma aggAverage_finalHour_idle:
  "aggSampleDays (foldl addHour (emptyHour h) bs) = 0 \<Longrightarrow>
   aggAverage (finalHour (foldl addHour (emptyHour h) bs)) = 0"
  by (simp add: finalHour_def foldl_addHour_fields emptyHour_def)

lemma AggregateDays_result:
  assumes "ds \<noteq> []"
  shows "\<exists>r m. AggregateDays (map Some ds) = Inr (Some r) \<and>
     mdStartDate r = dsDate (hd ds) \<and> mdEndDate r = dsDate (last ds) \<and>
     mdDaysAnalyzed r = int (length ds) \<and>
     (\<forall>h<24. mdByHour r h =
        Some (finalHour (foldl addHour (emptyHour h)
                (filter (\<lambda>b. hsSamples b \<noteq> 0) (bucketsAt ds h))))) \<and>
     mdTotalProduction r = sum_list (map dailyEnergy ds) \<and>
     mdDailyAverage r = sum_list (map dailyEnergy ds) / real (length ds) \<and>
     peakScan (map (\<lambda>h. (h, aggAverage (the (mdByHour r h)))) [0..<24]) (0, 0, 0)
       = (m, mdPeakHour r, mdPeakPowerAvg r)"
proof -
  let ?days = "map Some ds"
  let ?cnt = "\<lambda>h. filter (\<lambda>b. hsSamples b \<noteq> 0) (bucketsAt ds h)"
  define R where "R = \<lparr>mdStartDate = dsDate (hd ds), mdEndDate = dsDate (last ds),
      mdDaysAnalyzed = int (length ds), mdByHour = (\<lambda>i. None :: AggregatedHourStats option),
      mdTotalProduction = 0, mdDailyAverage = 0, mdPeakHour = 0, mdPeakPowerAvg = 0\<rparr>"
  define R0 where "R0 = R\<lparr>mdByHour := (\<lambda>i. if i < 24 then Some (emptyHour i) else None)\<rparr>"
  define R1 where "R1 = R\<lparr>mdByHour := (\<lambda>h. if h < 24 then Some (foldl addHour (emptyHour h) (?cnt h))
                                           else None)\<rparr>"
  define sc where "sc = peakScan (candidates R1 [0..<24]) (0, 0, 0)"
  define R2 where "R2 = R\<lparr>mdByHour := (\<lambda>h. if h < 24
        then Some (finalHour (foldl addHour (emptyHour h) (?cnt h))) else None),
      mdPeakHour := fst (snd sc), mdPeakPowerAvg := snd (snd sc)\<rparr>"
  define R3 where "R3 = R2\<lparr>mdTotalProduction := sum_list (map dailyEnergy ds)\<rparr>"
  have first: "?days ! 0 = Some (hd ds)"
    using assms by (simp add: hd_conv_nth)
  have final: "?days ! (length ?days - 1) = Some (last ds)"
    using assms by (simp add: last_conv_nth)
  have init: "initByHour R = R0"
    unfolding initByHour_eq R0_def by (rule MultiDayStats.equality) (auto simp: R_def fun_eq_iff)
  have "aggregateAll ?days R0 = Inr (R0\<lparr>mdByHour := (\<lambda>h. if h < 24
            then map_option (\<lambda>agg. foldl addHour agg (?cnt h)) (mdByHour R0 h)
            else mdByHour R0 h)\<rparr>)"
    by (rule aggregateAll_eq) (simp add: R0_def)
  also have "R0\<lparr>mdByHour := (\<lambda>h. if h < 24
            then map_option (\<lambda>agg. foldl addHour agg (?cnt h)) (mdByHour R0 h)
            else mdByHour R0 h)\<rparr> = R1"
    by (rule MultiDayStats.equality) (auto simp: R0_def R1_def fun_eq_iff)
  finally have agg: "aggregateAll ?days R0 = Inr R1" .
  have "finalStatistics [0..<24] (R1, 0) =
     Inr (R1\<lparr>mdByHour := (\<lambda>h. if h \<in> set [0..<24] then map_option finalHour (mdByHour R1 h)
                                    else mdByHour R1 h),
                 mdPeakHour := fst (snd (peakScan (candidates R1 [0..<24])
                                 (0, mdPeakHour R1, mdPeakPowerAvg R1))),
                 mdPeakPowerAvg := snd (snd (peakScan (candidates R1 [0..<24])
                                 (0, mdPeakHour R1, mdPeakPowerAvg R1)))\<rparr>,
          fst (peakScan (candidates R1 [0..<24]) (0, mdPeakHour R1, mdPeakPowerAvg R1)))"
    by (rule finalStatistics_eq) (simp_all add: R1_def)
  also have "peakScan (candidates R1 [0..<24]) (0, mdPeakHour R1, mdPeakPowerAvg R1) = sc"
    by (simp add: sc_def R1_def R_def)
  also have "R1\<lparr>mdByHour := (\<lambda>h. if h \<in> set [0..<24] then map_option finalHour (mdByHour R1 h)
                                    else mdByHour R1 h),
                 mdPeakHour := fst (snd sc), mdPeakPowerAvg := snd (snd sc)\<rparr> = R2"
    by (rule MultiDayStats.equality) (auto simp: R1_def R2_def fun_eq_iff)
  finally have fin: "finalStatistics [0..<24] (R1, 0) = Inr (R2, fst sc)" .
  have tot: "totalProduction ?days R2 = Inr R3"
    unfolding totalProduction_eq R3_def
    by (simp, rule MultiDayStats.equality) (simp_all add: R2_def R_def)
  have res: "AggregateDays ?days = Inr (Some (dailyAverage R3))"
    using assms first final
    by (simp add: AggregateDays_def Let_def R_def [symmetric] init agg fin tot
          del: nth_map)
  have days: "mdDaysAnalyzed R3 = int (length ds)"
    by (simp add: R3_def R2_def R_def)
  have byHour: "mdByHour (dailyAverage R3) h =
      Some (finalHour (foldl addHour (emptyHour h) (?cnt h)))" if "h < 24" for h
    using that by (simp add: dailyAverage_def R3_def R2_def)
  have "peakScan (candidates R1 [0..<24]) (0, 0, 0)
      = peakScan (map (\<lambda>h. (h, aggAverage (the (mdByHour (dailyAverage R3) h)))) [0..<24]) (0, 0, 0)"
  proof (rule peakScan_all_hours)
    show "(0::real) \<le> 0" by simp
  next
    fix h assume "h \<in> set [0..<24]" "aggSampleDays (the (mdByHour R1 h)) = 0"
    then show "aggAverage (the (mdByHour (dailyAverage R3) h)) = 0"
      by (simp add: byHour R1_def aggAverage_finalHour_idle)
  next
    fix h assume "h \<in> set [0..<24]" "aggSampleDays (the (mdByHour R1 h)) \<noteq> 0"
    then show "aggAverage (the (mdByHour (dailyAverage R3) h))
        = aggAverage (hourStatistics (the (mdByHour R1 h)))"
      by (simp add: byHour R1_def finalHour_def)
  qed
  then have peak: "peakScan (map (\<lambda>h. (h, aggAverage (the (mdByHour (dailyAverage R3) h)))) [0..<24])
       (0, 0, 0) = (fst sc, mdPeakHour (dailyAverage R3), mdPeakPowerAvg (dailyAverage R3))"
    by (simp add: sc_def [symmetric] dailyAverage_def R3_def R2_def)
  have fields: "mdStartDate (dailyAverage R3) = dsDate (hd ds)"
    "mdEndDate (dailyAverage R3) = dsDate (last ds)"
    "mdDaysAnalyzed (dailyAverage R3) = int (length ds)"
    "mdTotalProduction (dailyAverage R3) = sum_list (map dailyEnergy ds)"
    "mdDailyAverage (dailyAverage R3) = sum_list (map dailyEnergy ds) / real (length ds)"
    using assms by (simp_all add: dailyAverage_def R3_def R2_def R_def)
  show ?thesis
    using res fields byHour peak by blast
qed

section \<open>The example days\<close>

lemma dailyEnergy_noonDay:
  "dailyEnergy (noonDay date ws) = (if ws = [] then 0 else sum_list ws / real (length ws)) / 1000"
  by (simp add: dailyEnergy_eq noonDay_bucket upt_rec hourBucket_fields)

section \<open>The aggregate of one hour\<close>

lemma CalculateMedianStore_eq:
  assumes "a < length st"
  shows "CalculateMedianStore st (Some a) =
           (CalculateMedian (st ! a), if st ! a = [] then st else st @ [sort (st ! a)])"
  using assms
  by (simp add: CalculateMedianStore_def CalculateMedian_def len_def make_def copy_def
      sortFloat64s_def Let_def nth_append)

lemma hourStatistics_fields:
  "aggHour (hourStatistics agg) = aggHour agg"
  "aggSampleDays (hourStatistics agg) = aggSampleDays agg"
  "aggMin (hourStatistics agg) = aggMin agg"
  "aggMax (hourStatistics agg) = aggMax agg"
  "aggValues (hourStatistics agg) = aggValues agg"
  "aggAverage (hourStatistics agg) = sum_list (aggValues agg) / real (length (aggValues agg))"
  "aggMedian (hourStatistics agg) = CalculateMedian (aggValues agg)"
  "aggStdDev (hourStatistics agg) =
     CalculateStdDev (aggValues agg) (sum_list (aggValues agg) / real (length (aggValues agg)))"
  by (simp_all add: hourStatistics_def Let_def foldl_plus_sum_list)

lemma finalHour_fields:
  "aggHour (finalHour agg) = aggHour agg"
  "aggSampleDays (finalHour agg) = aggSampleDays agg"
  "aggValues (finalHour agg) = aggValues agg"
  "aggMin (finalHour agg) = (if aggSampleDays agg = 0 then 0 else aggMin agg)"
  "aggMax (finalHour agg) = (if aggSampleDays agg = 0 then 0 else aggMax agg)"
  "aggAverage (finalHour agg) =
     (if aggSampleDays agg = 0 then aggAverage agg
      else sum_list (aggValues agg) / real (length (aggValues agg)))"
  "aggMedian (finalHour agg) =
     (if aggSampleDays agg = 0 then aggMedian agg else CalculateMedian (aggValues agg))"
  "aggStdDev (finalHour agg) =
     (if aggSampleDays agg = 0 then aggStdDev agg
      else CalculateStdDev (aggValues agg) (sum_list (aggValues agg) / real (length (aggValues agg))))"
  by (simp_all add: finalHour_def hourStatistics_fields)

lemma hour_aggregate_fields:
  "aggHour (finalHour (foldl addHour (emptyHour h) cs)) = int h"
  "aggSampleDays (finalHour (foldl addHour (emptyHour h) cs)) = int (length cs)"
  "aggValues (finalHour (foldl addHour (emptyHour h) cs)) = map hsMean cs"
  "aggMin (finalHour (foldl addHour (emptyHour h) cs))
     = (if cs = [] then 0 else foldl min MaxFloat64 (map hsMin cs))"
  "aggMax (finalHour (foldl addHour (emptyHour h) cs))
     = (if cs = [] then 0 else foldl max (- MaxFloat64) (map hsMax cs))"
  "aggAverage (finalHour (foldl addHour (emptyHour h) cs))
     = (if cs = [] then 0 else sum_list (map hsMean cs) / real (length cs))"
  "aggMedian (finalHour (foldl addHour (emptyHour h) cs))
     = (if cs = [] then 0 else CalculateMedian (map hsMean cs))"
  "aggStdDev (finalHour (foldl addHour (emptyHour h) cs))
     = (if cs = [] then 0
        else CalculateStdDev (map hsMean cs) (sum_list (map hsMean cs) / real (length cs)))"
  by (simp_all add: finalHour_fields foldl_addHour_fields emptyHour_def)

lemma contributing_eq:
  assumes "\<forall>b\<in>set (bucketsAt ds h). 0 \<le> hsSamples b"
  shows "filter (\<lambda>b. hsSamples b \<noteq> 0) (bucketsAt ds h) = contributing ds h"
  unfolding contributing_def using assms by (intro filter_cong) auto

lemma peak_of_scan:
  assumes "peakScan (map (\<lambda>h. (h, f h)) [0..<n]) (0, 0, 0) = (m, ph, pa)"
  shows "if \<exists>h<n. 0 < f h
         then \<exists>p<n. ph = int p \<and> pa = f p \<and> (\<forall>h<n. f h \<le> f p) \<and> (\<forall>h<p. f h < f p)
         else ph = 0 \<and> pa = 0"
proof (cases "\<exists>h<n. 0 < f h")
  case True
  then have ex: "\<exists>h\<in>set [0..<n]. f h > 0" by auto
  have s: "sorted_wrt (<) [0..<n]" by simp
  from peakScan_first_maximum [OF s ex assms] obtain p where
    p: "pa = m" "p \<in> set [0..<n]" "ph = int p" "f p = m" "\<forall>h\<in>set [0..<n]. h < p \<longrightarrow> f h < m"
    by auto
  from peakScan_bounds [OF assms] have b: "\<forall>h\<in>set [0..<n]. f h \<le> m" by simp
  have "p < n" "ph = int p" "pa = f p" "\<forall>h<n. f h \<le> f p" "\<forall>h<p. f h < f p"
    using p b by auto
  with True show ?thesis by auto
next
  case False
  have "f h \<le> 0" if "h \<in> set [0..<n]" for h
  proof (rule ccontr)
    assume "\<not> f h \<le> 0"
    then have "0 < f h" by simp
    with that False show False by auto
  qed
  then have "\<forall>h\<in>set [0..<n]. f h \<le> 0" by blast
  from peakScan_unchanged [OF this, of 0 0] assms have "ph = 0" "pa = 0" by simp_all
  with False show ?thesis by (simp only: if_False simp_thms)
qed

lemma exampleDays_nonempty: "exampleDays \<noteq> []"
  by (simp add: exampleDays_def)

lemma bucketsAt_exampleDays:
  "h < 24 \<Longrightarrow> bucketsAt exampleDays h =
     [hourBucket (int h) (if h = 12 then [4000, 4200] else []),
      hourBucket (int h) (if h = 12 then [4500, 4700] else []),
      hourBucket (int h) (if h = 12 then [4100, 4300] else [])]"
  by (simp add: exampleDays_def bucketsAt_simps noonDay_bucket)

lemma exampleDays_noon:
  "map hsSamples (bucketsAt exampleDays 12) = [2, 2, 2]"
  "map hsMean (bucketsAt exampleDays 12) = [4100, 4600, 4200]"
  "map hsMin (bucketsAt exampleDays 12) = [4000, 4500, 4100]"
  "map hsMax (bucketsAt exampleDays 12) = [4200, 4700, 4300]"
  by (simp_all add: bucketsAt_exampleDays hourBucket_fields MaxFloat64_val)

lemma exampleDays_idle:
  "h < 24 \<Longrightarrow> h \<noteq> 12 \<Longrightarrow> filter (\<lambda>b. hsSamples b \<noteq> 0) (bucketsAt exampleDays h) = []"
  by (simp add: bucketsAt_exampleDays hourBucket_fields)

lemma exampleDays_counted:
  "filter (\<lambda>b. hsSamples b \<noteq> 0) (bucketsAt exampleDays 12) = bucketsAt exampleDays 12"
  by (simp add: bucketsAt_exampleDays hourBucket_fields)

lemma exampleDays_contributing: "contributing exampleDays 12 = bucketsAt exampleDays 12"
  by (simp add: contributing_def bucketsAt_exampleDays hourBucket_fields)

lemma exampleDays_average:
  "h < 24 \<Longrightarrow>
   aggAverage (finalHour (foldl addHour (emptyHour h)
     (filter (\<lambda>b. hsSamples b \<noteq> 0) (bucketsAt exampleDays h)))) = (if h = 12 then 4300 else 0)"
proof (cases "h = 12")
  case True
  have "length (bucketsAt exampleDays 12) = 3" "bucketsAt exampleDays 12 \<noteq> []"
    by (simp_all add: bucketsAt_exampleDays)
  with True show ?thesis
    by (simp add: exampleDays_counted hour_aggregate_fields exampleDays_noon)
next
  case False
  assume "h < 24"
  with False show ?thesis
    by (simp add: exampleDays_idle finalHour_fields emptyHour_def)
qed

section \<open>Cross-day statistics of an hour\<close>

text \<open>
  Claim C6. Take days that are all present, at least one, an hour \<open>h\<close> below 24, and
  buckets of that hour with a sample count that is not negative and extremes that are
  finite \<open>float64\<close> values. A day contributes to the hour when its bucket is present with
  a positive sample count (\<open>contributing\<close>). The aggregate of the hour counts the
  contributing days and keeps their hourly means in the order of the days. If no day
  contributes its minimum and maximum are \<open>0\<close>. Otherwise its minimum is the least of
  the hourly minimums and its maximum the greatest of the hourly maximums of the
  contributing buckets, its average is the sum of the kept means divided by their number,
  and its median and standard deviation are \<open>CalculateMedian\<close> and \<open>CalculateStdDev\<close> of
  the kept means, the latter around the average.
\<close>

theorem AggregateDays_hour_aggregate:
  assumes "ds \<noteq> []" and "h < 24"
    and "\<forall>b\<in>set (bucketsAt ds h).
           0 \<le> hsSamples b \<and> hsMin b \<le> MaxFloat64 \<and> - MaxFloat64 \<le> hsMax b"
  shows "\<exists>r agg. AggregateDays (map Some ds) = Inr (Some r) \<and> mdByHour r h = Some agg \<and>
     aggSampleDays agg = int (length (contributing ds h)) \<and>
     aggValues agg = map hsMean (contributing ds h) \<and>
     (if contributing ds h = [] then aggMin agg = 0 \<and> aggMax agg = 0
      else aggMin agg = Min (hsMin ` set (contributing ds h)) \<and>
           aggMax agg = Max (hsMax ` set (contributing ds h)) \<and>
           aggAverage agg = sum_list (aggValues agg) / real (length (aggValues agg)) \<and>
           aggMedian agg = CalculateMedian (aggValues agg) \<and>
           aggStdDev agg = CalculateStdDev (aggValues agg) (aggAverage agg))"
proof -
  let ?cs = "contributing ds h"
  from AggregateDays_result [OF assms(1)] obtain r where
    r: "AggregateDays (map Some ds) = Inr (Some r)"
    and byHour: "\<forall>h<24. mdByHour r h =
        Some (finalHour (foldl addHour (emptyHour h)
                (filter (\<lambda>b. hsSamples b \<noteq> 0) (bucketsAt ds h))))"
    by blast
  have cs: "filter (\<lambda>b. hsSamples b \<noteq> 0) (bucketsAt ds h) = ?cs"
    using assms(3) by (intro contributing_eq) auto
  have agg: "mdByHour r h = Some (finalHour (foldl addHour (emptyHour h) ?cs))"
    using byHour assms(2) cs by simp
  have sub: "set ?cs \<subseteq> set (bucketsAt ds h)" by (auto simp: contributing_def)
  have mn: "foldl min MaxFloat64 (map hsMin ?cs) = Min (hsMin ` set ?cs)" if "?cs \<noteq> []"
    using foldl_min_bounded [of "map hsMin ?cs" MaxFloat64] that assms(3) sub by auto
  have mx: "foldl max (- MaxFloat64) (map hsMax ?cs) = Max (hsMax ` set ?cs)" if "?cs \<noteq> []"
    using foldl_max_bounded [of "map hsMax ?cs" "- MaxFloat64"] that assms(3) sub by auto
  show ?thesis
  proof (cases "?cs = []")
    case True
    with r agg show ?thesis by (simp add: finalHour_fields emptyHour_def)
  next
    case False
    with r agg mn mx show ?thesis by (simp add: hour_aggregate_fields)
  qed
qed

theorem AggregateDays_hour_aggregate_witness:
  "\<exists>r agg. AggregateDays (map Some exampleDays) = Inr (Some r) \<and> mdByHour r 12 = Some agg \<and>
     aggSampleDays agg = 3 \<and> aggMin agg = 4000 \<and> aggMax agg = 4700 \<and>
     aggValues agg = [4100, 4600, 4200] \<and> aggAverage agg = 4300 \<and> aggMedian agg = 4200"
proof -
  have h: "(12::nat) < 24" by simp
  have wf: "\<forall>b\<in>set (bucketsAt exampleDays 12).
           0 \<le> hsSamples b \<and> hsMin b \<le> MaxFloat64 \<and> - MaxFloat64 \<le> hsMax b"
    by (simp add: bucketsAt_exampleDays hourBucket_fields MaxFloat64_val)
  have len: "length (bucketsAt exampleDays 12) = 3" "bucketsAt exampleDays 12 \<noteq> []"
    by (simp_all add: bucketsAt_exampleDays)
  have img: "hsMin ` set (bucketsAt exampleDays 12) = set (map hsMin (bucketsAt exampleDays 12))"
    "hsMax ` set (bucketsAt exampleDays 12) = set (map hsMax (bucketsAt exampleDays 12))"
    by simp_all
  have med: "CalculateMedian [4100, 4600, 4200] = 4200"
    by (simp add: CalculateMedian_def)
  from AggregateDays_hour_aggregate [OF exampleDays_nonempty h wf] obtain r agg where
    "AggregateDays (map Some exampleDays) = Inr (Some r)" "mdByHour r 12 = Some agg"
    "aggSampleDays agg = int (length (contributing exampleDays 12))"
    "aggValues agg = map hsMean (contributing exampleDays 12)"
    "aggMin agg = Min (hsMin ` set (contributing exampleDays 12))"
    "aggMax agg = Max (hsMax ` set (contributing exampleDays 12))"
    "aggAverage agg = sum_list (aggValues agg) / real (length (aggValues agg))"
    "aggMedian agg = CalculateMedian (aggValues agg)"
    unfolding exampleDays_contributing using len(2) by auto
  then show ?thesis
    unfolding exampleDays_contributing img exampleDays_noon len
    by (intro exI [of _ r] exI [of _ agg]) (simp add: med)
qed

section \<open>The peak hour\<close>

text \<open>
  Claim C7. For days that are all present, at least one, the peak is what one scan of the
  24 hourly averages from hour 0 to hour 23 leaves, with a running maximum that starts at
  \<open>0\<close> and is replaced only by a strictly greater average (\<open>peakScan\<close>). If some average
  is positive, the peak hour is an hour whose average is the greatest of all 24, every
  earlier hour has a strictly smaller average (the lowest hour wins a tie), and the peak
  power average is that average. If no average is positive, both are \<open>0\<close>.
\<close>

theorem AggregateDays_peak_hour:
  assumes "ds \<noteq> []"
  shows "\<exists>r m. AggregateDays (map Some ds) = Inr (Some r) \<and>
     peakScan (map (\<lambda>h. (h, aggAverage (the (mdByHour r h)))) [0..<24]) (0, 0, 0)
       = (m, mdPeakHour r, mdPeakPowerAvg r) \<and>
     (if \<exists>h<24. 0 < aggAverage (the (mdByHour r h))
      then \<exists>p<24. mdPeakHour r = int p \<and>
             mdPeakPowerAvg r = aggAverage (the (mdByHour r p)) \<and>
             (\<forall>h<24. aggAverage (the (mdByHour r h)) \<le> aggAverage (the (mdByHour r p))) \<and>
             (\<forall>h<p. aggAverage (the (mdByHour r h)) < aggAverage (the (mdByHour r p)))
      else mdPeakHour r = 0 \<and> mdPeakPowerAvg r = 0)"
proof -
  from AggregateDays_result [OF assms] obtain r m where
    r: "AggregateDays (map Some ds) = Inr (Some r)"
    and sc: "peakScan (map (\<lambda>h. (h, aggAverage (the (mdByHour r h)))) [0..<24]) (0, 0, 0)
       = (m, mdPeakHour r, mdPeakPowerAvg r)"
    by blast
  from peak_of_scan [OF sc] r sc show ?thesis by blast
qed

theorem AggregateDays_peak_hour_witness:
  "\<exists>r. AggregateDays (map Some exampleDays) = Inr (Some r) \<and>
       mdPeakHour r = 12 \<and> mdPeakPowerAvg r = 4300"
proof -
  from AggregateDays_peak_hour [OF exampleDays_nonempty] obtain r m where
    r: "AggregateDays (map Some exampleDays) = Inr (Some r)"
    and sc: "peakScan (map (\<lambda>h. (h, aggAverage (the (mdByHour r h)))) [0..<24]) (0, 0, 0)
       = (m, mdPeakHour r, mdPeakPowerAvg r)"
    by blast
  from AggregateDays_result [OF exampleDays_nonempty] r have
    "\<forall>h<24. mdByHour r h =
        Some (finalHour (foldl addHour (emptyHour h)
                (filter (\<lambda>b. hsSamples b \<noteq> 0) (bucketsAt exampleDays h))))"
    by auto
  then have avg: "\<forall>h<24. aggAverage (the (mdByHour r h)) = (if h = 12 then 4300 else 0)"
    by (simp add: exampleDays_average)
  have meq: "map (\<lambda>h. (h, aggAverage (the (mdByHour r h)))) [0..<24]
      = map (\<lambda>h. (h, if h = 12 then 4300 else 0)) [0..<24]"
    using avg by (intro map_cong) auto
  have "peakScan (map (\<lambda>h. (h, if h = 12 then 4300 else 0 :: real)) [0..<24]) (0, 0, 0)
       = (m, mdPeakHour r, mdPeakPowerAvg r)"
    using sc unfolding meq .
  moreover have "peakScan (map (\<lambda>h. (h, if h = 12 then 4300 else 0 :: real)) [0..<24]) (0, 0, 0)
       = (4300, 12, 4300)"
    by (simp add: upt_rec)
  ultimately have "mdPeakHour r = 12 \<and> mdPeakPowerAvg r = 4300"
    by simp
  with r show ?thesis by blast
qed

section \<open>Production\<close>

text \<open>
  Claim C8. For days that are all present, at least one, the total production is the sum
  over the days of the sum over the hours \<open>0..23\<close> of the mean of the day's bucket, in
  watts, divided by \<open>1000\<close> (a \<open>nil\<close> bucket adds nothing); it is taken from the hourly
  means of each day, not from the cross-day averages. The number of days analyzed is the length of the
  list, and the daily average is the total divided by it. The division is guarded:
  \<open>dailyAverage\<close> leaves a result with no day unchanged.
\<close>

theorem AggregateDays_production:
  assumes "ds \<noteq> []"
  shows "(\<exists>r. AggregateDays (map Some ds) = Inr (Some r) \<and>
      mdTotalProduction r =
        (\<Sum>d\<leftarrow>ds. \<Sum>h\<leftarrow>[0..<24]. case dsHours d h of None \<Rightarrow> 0 | Some b \<Rightarrow> hsMean b / 1000) \<and>
      mdDaysAnalyzed r = int (length ds) \<and>
      mdDailyAverage r = mdTotalProduction r / of_int (mdDaysAnalyzed r)) \<and>
    (mdDaysAnalyzed x \<le> 0 \<longrightarrow> dailyAverage x = x)"
proof -
  from AggregateDays_result [OF assms] obtain r where
    "AggregateDays (map Some ds) = Inr (Some r)"
    "mdDaysAnalyzed r = int (length ds)"
    "mdTotalProduction r = sum_list (map dailyEnergy ds)"
    "mdDailyAverage r = sum_list (map dailyEnergy ds) / real (length ds)"
    by blast
  moreover have "map dailyEnergy ds =
      map (\<lambda>d. \<Sum>h\<leftarrow>[0..<24]. case dsHours d h of None \<Rightarrow> 0 | Some b \<Rightarrow> hsMean b / 1000) ds"
    by (simp add: dailyEnergy_eq)
  ultimately show ?thesis by (auto simp: dailyAverage_def)
qed

theorem AggregateDays_production_witness:
  "(\<exists>r. AggregateDays (map Some exampleDays) = Inr (Some r) \<and>
       mdTotalProduction r = 129 / 10 \<and> mdDaysAnalyzed r = 3 \<and> mdDailyAverage r = 43 / 10) \<and>
   dailyAverage
     \<lparr>mdStartDate = [], mdEndDate = [], mdDaysAnalyzed = 0, mdByHour = (\<lambda>i. None),
      mdTotalProduction = 0, mdDailyAverage = 0, mdPeakHour = 0, mdPeakPowerAvg = 0\<rparr>
   = \<lparr>mdStartDate = [], mdEndDate = [], mdDaysAnalyzed = 0, mdByHour = (\<lambda>i. None),
      mdTotalProduction = 0, mdDailyAverage = 0, mdPeakHour = 0, mdPeakPowerAvg = 0\<rparr>"
proof -
  have "(\<Sum>d\<leftarrow>exampleDays. \<Sum>h\<leftarrow>[0..<24]. case dsHours d h of None \<Rightarrow> 0 | Some b \<Rightarrow> hsMean b / 1000)
      = (\<Sum>d\<leftarrow>exampleDays. dailyEnergy d)"
    by (simp add: dailyEnergy_eq)
  also have "\<dots> = 129 / 10"
    by (simp add: exampleDays_def dailyEnergy_noonDay)
  finally have total: "(\<Sum>d\<leftarrow>exampleDays. \<Sum>h\<leftarrow>[0..<24].
      case dsHours d h of None \<Rightarrow> 0 | Some b \<Rightarrow> hsMean b / 1000) = 129 / 10" .
  have len: "length exampleDays = 3" by (simp add: exampleDays_def)
  from AggregateDays_production [OF exampleDays_nonempty,
      of "\<lparr>mdStartDate = [], mdEndDate = [], mdDaysAnalyzed = 0, mdByHour = (\<lambda>i. None),
          mdTotalProduction = 0, mdDailyAverage = 0, mdPeakHour = 0, mdPeakPowerAvg = 0\<rparr>"]
  show ?thesis
    unfolding total len by auto
qed

section \<open>The median leaves its argument alone\<close>

text \<open>
  Claim C10. On the store of arrays, \<open>CalculateMedian\<close> called with the array \<open>a\<close>
  returns the median of its content and leaves every array that existed before the call
  as it was, the argument among them: the sort works on a new array. Called with a \<open>nil\<close>
  slice it returns \<open>0\<close> and the store is unchanged. So the value list of the aggregate
  of an hour, after \<open>AggregateDays\<close> has computed its median, still holds the hourly means
  of the counted days in the order of the days.
\<close>

theorem CalculateMedian_preserves_input:
  "(a < length st \<longrightarrow>
      fst (CalculateMedianStore st (Some a)) = CalculateMedian (st ! a) \<and>
      snd (CalculateMedianStore st (Some a)) ! a = st ! a \<and>
      take (length st) (snd (CalculateMedianStore st (Some a))) = st) \<and>
   CalculateMedianStore st None = (0, st) \<and>
   (ds \<noteq> [] \<and> h < 24 \<longrightarrow>
      (\<exists>r agg. AggregateDays (map Some ds) = Inr (Some r) \<and> mdByHour r h = Some agg \<and>
         aggValues agg = map hsMean (filter (\<lambda>b. hsSamples b \<noteq> 0) (bucketsAt ds h))))"
proof -
  have 1: "fst (CalculateMedianStore st (Some a)) = CalculateMedian (st ! a) \<and>
      snd (CalculateMedianStore st (Some a)) ! a = st ! a \<and>
      take (length st) (snd (CalculateMedianStore st (Some a))) = st" if "a < length st"
    using that by (simp add: CalculateMedianStore_eq nth_append)
  have 2: "CalculateMedianStore st None = (0, st)"
    by (simp add: CalculateMedianStore_def len_def)
  have 3: "\<exists>r agg. AggregateDays (map Some ds) = Inr (Some r) \<and> mdByHour r h = Some agg \<and>
         aggValues agg = map hsMean (filter (\<lambda>b. hsSamples b \<noteq> 0) (bucketsAt ds h))"
    if "ds \<noteq> []" "h < 24"
  proof -
    from AggregateDays_result [OF that(1)] obtain r where
      "AggregateDays (map Some ds) = Inr (Some r)"
      "\<forall>h<24. mdByHour r h =
        Some (finalHour (foldl addHour (emptyHour h)
                (filter (\<lambda>b. hsSamples b \<noteq> 0) (bucketsAt ds h))))"
      by blast
    with that(2) show ?thesis by (simp add: hour_aggregate_fields)
  qed
  show ?thesis using 1 2 3 by blast
qed

theorem CalculateMedian_preserves_input_witness:
  "fst (CalculateMedianStore [[5, 2, 8, 1, 9]] (Some 0)) = 5 \<and>
   snd (CalculateMedianStore [[5, 2, 8, 1, 9]] (Some 0)) ! 0 = [5, 2, 8, 1, 9] \<and>
   (\<exists>r agg. AggregateDays (map Some exampleDays) = Inr (Some r) \<and> mdByHour r 12 = Some agg \<and>
      aggValues agg = [4100, 4600, 4200])"
proof -
  have med: "CalculateMedian [5, 2, 8, 1, 9] = 5"
    by (simp add: CalculateMedian_def)
  have vals: "map hsMean (filter (\<lambda>b. hsSamples b \<noteq> 0) (bucketsAt exampleDays 12))
      = [4100, 4600, 4200]"
    by (simp add: exampleDays_counted exampleDays_noon)
  from CalculateMedian_preserves_input [of 0 "[[5, 2, 8, 1, 9]]" exampleDays 12]
  show ?thesis
    unfolding vals using med exampleDays_nonempty by simp
qed

end
